theory Spec2Isabelle
  imports Complex_Main
begin

section \<open>Text primitives of the scripts\<close>

text \<open>
  Python strings are modelled as \<open>string\<close> (lists of 8-bit characters), so the model covers
  text whose code points are below 256; \<open>len\<close> is \<open>length\<close>, and a character is read
  through its code point, an \<open>int\<close>. The whitespace removed by \<open>str.strip()\<close> is the set of
  characters below 256 for which \<open>str.isspace\<close> holds; \<open>str.lower()\<close> and the title case
  used by \<open>str.capitalize()\<close> map the letters below 256 as Python does, where the result
  is below 256 as well.
\<close>

definition nl :: char where
  "nl = CHR 0x0A"

definition is_space :: "char \<Rightarrow> bool" where
  "is_space c = (let n = (of_char c :: int) in
     (9 \<le> n \<and> n \<le> 13) \<or> (28 \<le> n \<and> n \<le> 32) \<or> n = 133 \<or> n = 160)"

definition lstrip :: "string \<Rightarrow> string" where
  "lstrip s = dropWhile is_space s"

definition rstrip :: "string \<Rightarrow> string" where
  "rstrip s = rev (dropWhile is_space (rev s))"

definition strip :: "string \<Rightarrow> string" where
  "strip s = rstrip (lstrip s)"

definition lower_char :: "char \<Rightarrow> char" where
  "lower_char c = (let n = (of_char c :: int) in
     if (65 \<le> n \<and> n \<le> 90) \<or> (192 \<le> n \<and> n \<le> 222 \<and> n \<noteq> 215)
     then char_of (n + 32) else c)"

text \<open>
  The title case of a first character, a text since that of the sharp s is \<open>Ss\<close>; the
  micro sign and the y with diaeresis, whose capitals lie beyond 255, keep their place.
\<close>

definition title_char :: "char \<Rightarrow> string" where
  "title_char c = (let n = (of_char c :: int) in
     if (97 \<le> n \<and> n \<le> 122) \<or> (224 \<le> n \<and> n \<le> 254 \<and> n \<noteq> 247)
     then [char_of (n - 32)]
     else if n = 223 then ''Ss''
     else [c])"

definition lower :: "string \<Rightarrow> string" where
  "lower s = map lower_char s"

text \<open>\<open>str.capitalize()\<close>: the first character in title case, the rest lower-cased.\<close>

fun capitalize :: "string \<Rightarrow> string" where
  "capitalize [] = []"
| "capitalize (c # cs) = title_char c @ lower cs"

text \<open>\<open>str.split('\n')\<close>: the pieces between line feeds; never the empty list.\<close>

fun split_nl :: "string \<Rightarrow> string list" where
  "split_nl [] = [[]]"
| "split_nl (c # cs) =
     (if c = nl then [] # split_nl cs
      else (case split_nl cs of [] \<Rightarrow> [[c]] | l # ls \<Rightarrow> (c # l) # ls))"

text \<open>Decimal rendering of a number inside an f-string.\<close>

definition digit_char :: "nat \<Rightarrow> char" where
  "digit_char d = char_of (48 + int d)"

function str_nat :: "nat \<Rightarrow> string" where
  "str_nat n = (if n < 10 then [digit_char n] else str_nat (n div 10) @ [digit_char (n mod 10)])"
  by pat_completeness auto
termination
  by (relation "measure id") auto

declare str_nat.simps [simp del]

section \<open>Difficulty bucketing\<close>

text \<open>
  \<open>DifficultyMapper.map_rating\<close> of \<^verbatim>\<open>seed_problems.py\<close>; the rating is \<open>Optional[int]\<close>.
\<close>

definition map_rating :: "int option \<Rightarrow> string" where
  "map_rating rating =
     (case rating of
        None \<Rightarrow> ''medium''
      | Some r \<Rightarrow>
          if r < 1200 then ''easy''
          else if r \<le> 1600 then ''medium''
          else ''hard'')"

text \<open>\<open>DifficultyMapper.map_rating\<close> of \<^verbatim>\<open>seed_problems_api.py\<close>.\<close>

definition map_rating_api :: "int option \<Rightarrow> string" where
  "map_rating_api rating =
     (case rating of
        None \<Rightarrow> ''medium''
      | Some r \<Rightarrow>
          if r < 1200 then ''easy''
          else if r \<le> 1600 then ''medium''
          else ''hard'')"

section \<open>LeetCode example test cases\<close>

text \<open>
  A test case is a Python dict literal with string values; it is kept as the list of its
  key/value pairs in insertion order.
\<close>

type_synonym dict = "(string \<times> string) list"

text \<open>
  \<open>ProblemTransformer._parse_test_cases\<close> of \<^verbatim>\<open>seed_leetcode.py\<close>. The loop
  \<^verbatim>\<open>for i in range(0, len(lines), 2)\<close> is \<open>parse_loop\<close>, with the list being built as the
  accumulator (its length numbers the next explanation).
\<close>

function parse_loop :: "string list \<Rightarrow> nat \<Rightarrow> dict list \<Rightarrow> dict list" where
  "parse_loop lines i test_cases =
     (if i < length lines then
        parse_loop lines (i + 2)
          (if i + 1 < length lines then
             test_cases @
               [[(''input'', strip (lines ! i)),
                 (''output'', strip (lines ! (i + 1))),
                 (''explanation'', ''Example '' @ str_nat (length test_cases + 1))]]
           else test_cases)
      else test_cases)"
  by pat_completeness auto
termination
  by (relation "measure (\<lambda>(lines, i, test_cases). length lines - i)") auto

declare parse_loop.simps [simp del]

text \<open>
  The argument is \<open>None\<close> when \<open>exampleTestcases\<close> is missing (JSON null); \<^verbatim>\<open>not example_tests\<close>
  holds for \<open>None\<close> and for the empty string.
\<close>

definition parse_test_cases :: "string option \<Rightarrow> dict list" where
  "parse_test_cases example_tests =
     (case example_tests of
        None \<Rightarrow> []
      | Some s \<Rightarrow> if s = [] then [] else parse_loop (split_nl (strip s)) 0 [])"

text \<open>The test case expected from the lines \<open>2k\<close> and \<open>2k + 1\<close>.\<close>

definition example_case :: "string list \<Rightarrow> nat \<Rightarrow> dict" where
  "example_case lines k =
     [(''input'', strip (lines ! (2 * k))),
      (''output'', strip (lines ! (2 * k + 1))),
      (''explanation'', ''Example '' @ str_nat (k + 1))]"

section \<open>Sample tests of a Codeforces page\<close>

text \<open>
  The parsed page (a BeautifulSoup tree) is a tree of elements and text nodes; an element
  has a tag name, its list of classes and its children.
\<close>

datatype node = Tag string "string list" "node list" | Text string

text \<open>All nodes below an element, in document order.\<close>

fun descendants :: "node \<Rightarrow> node list" where
  "descendants (Text s) = []"
| "descendants (Tag name classes children) =
     concat (map (\<lambda>c. c # descendants c) children)"

text \<open>
  The filter of \<^verbatim>\<open>find(name, class_=cls)\<close>: an element of that name which has the class
  among its classes; \<open>None\<close> stands for a call without \<^verbatim>\<open>class_\<close>.
\<close>

fun matches :: "string \<Rightarrow> string option \<Rightarrow> node \<Rightarrow> bool" where
  "matches name cls (Text s) = False"
| "matches name cls (Tag n classes children) =
     (n = name \<and> (case cls of None \<Rightarrow> True | Some c \<Rightarrow> c \<in> set classes))"

definition find_all :: "node \<Rightarrow> string \<Rightarrow> string option \<Rightarrow> node list" where
  "find_all elem name cls = filter (matches name cls) (descendants elem)"

definition find_node :: "node \<Rightarrow> string \<Rightarrow> string option \<Rightarrow> node option" where
  "find_node elem name cls =
     (case find_all elem name cls of [] \<Rightarrow> None | n # ns \<Rightarrow> Some n)"

text \<open>\<^verbatim>\<open>get_text()\<close>: the text nodes below an element, concatenated.\<close>

fun get_text :: "node \<Rightarrow> string" where
  "get_text (Text s) = s"
| "get_text (Tag name classes children) = concat (map get_text children)"

text \<open>
  \<open>ProblemParser._extract_test_cases\<close> of \<^verbatim>\<open>seed_problems.py\<close>. \<open>extract_loop\<close> is the
  loop over \<^verbatim>\<open>enumerate(zip(inputs, outputs))\<close>. None of the modelled tree operations
  raises, so the handler of the enclosing \<^verbatim>\<open>try\<close> is never entered.
\<close>

fun extract_loop :: "nat \<Rightarrow> (node \<times> node) list \<Rightarrow> dict list \<Rightarrow> dict list" where
  "extract_loop i [] test_cases = test_cases"
| "extract_loop i ((input_div, output_div) # rest) test_cases =
     (let input_text = (case find_node input_div ''pre'' None of
                          Some input_pre \<Rightarrow> strip (get_text input_pre) | None \<Rightarrow> '''');
          output_text = (case find_node output_div ''pre'' None of
                          Some output_pre \<Rightarrow> strip (get_text output_pre) | None \<Rightarrow> '''')
      in extract_loop (i + 1) rest
           (test_cases @
              [[(''input'', input_text),
                (''output'', output_text),
                (''explanation'', ''Sample test '' @ str_nat (i + 1))]]))"

definition extract_test_cases :: "node \<Rightarrow> dict list" where
  "extract_test_cases soup =
     (case find_node soup ''div'' (Some ''sample-test'') of
        None \<Rightarrow> []
      | Some sample_tests \<Rightarrow>
          (let inputs = find_all sample_tests ''div'' (Some ''input'');
               outputs = find_all sample_tests ''div'' (Some ''output'')
           in extract_loop 0 (zip inputs outputs) []))"

text \<open>
  The sample-test part of \<open>CodeforcesFullScraper.scrape_problem_details\<close> of
  \<^verbatim>\<open>scrape_codeforces_full.py\<close>; the result is the value stored under \<^verbatim>\<open>sampleTests\<close>,
  \<open>None\<close> when the key is not set.
\<close>

fun scrape_loop :: "(node \<times> node) list \<Rightarrow> dict list \<Rightarrow> dict list" where
  "scrape_loop [] test_cases = test_cases"
| "scrape_loop ((inp, out) # rest) test_cases =
     scrape_loop rest
       (case (find_node inp ''pre'' None, find_node out ''pre'' None) of
          (Some input_pre, Some output_pre) \<Rightarrow>
             test_cases @
               [[(''input'', strip (get_text input_pre)),
                 (''output'', strip (get_text output_pre))]]
        | _ \<Rightarrow> test_cases)"

definition scrape_sample_tests :: "node \<Rightarrow> dict list option" where
  "scrape_sample_tests soup =
     (case find_node soup ''div'' (Some ''sample-test'') of
        None \<Rightarrow> None
      | Some sample_test \<Rightarrow>
          Some (scrape_loop
                  (zip (find_all sample_test ''div'' (Some ''input''))
                       (find_all sample_test ''div'' (Some ''output''))) []))"

text \<open>
  For the statements: the stripped text of the first \<open>pre\<close> below a block, empty when
  there is none, and whether there is one.
\<close>

definition pre_text :: "node \<Rightarrow> string" where
  "pre_text block =
     (case find_node block ''pre'' None of Some p \<Rightarrow> strip (get_text p) | None \<Rightarrow> '''')"

definition has_pre :: "node \<Rightarrow> bool" where
  "has_pre block = (find_node block ''pre'' None \<noteq> None)"

text \<open>Two small pages: a block without \<open>pre\<close>, and a regular pair of blocks.\<close>

definition page_without_pre :: node where
  "page_without_pre =
     Tag ''body'' []
       [Tag ''div'' [''sample-test'']
          [Tag ''div'' [''input''] [Tag ''div'' [''title''] [Text ''Input'']],
           Tag ''div'' [''output''] [Tag ''div'' [''title''] [Text ''Output''],
                                     Tag ''pre'' [] [Text ''6'']]]]"

definition page_regular :: node where
  "page_regular =
     Tag ''body'' []
       [Tag ''div'' [''sample-test'']
          [Tag ''div'' [''input''] [Tag ''div'' [''title''] [Text ''Input''],
                                    Tag ''pre'' [] [Text ''1 2 3'']],
           Tag ''div'' [''output''] [Tag ''div'' [''title''] [Text ''Output''],
                                     Tag ''pre'' [] [Text ''6'']]]]"

section \<open>Description backfill\<close>

text \<open>
  \<open>ProblemTransformer._pad_description\<close> of \<^verbatim>\<open>seed_leetcode.py\<close>: the header and the
  footer it builds, the filler sentence, and its \<^verbatim>\<open>while len(full_desc) < 500\<close> loop.
\<close>

definition header :: "string \<Rightarrow> string \<Rightarrow> string" where
  "header title difficulty =
     ''# '' @ title @ [nl, nl]
     @ ''**Difficulty**: '' @ capitalize difficulty @ [nl, nl]
     @ ''**Source**: LeetCode'' @ [nl, nl]
     @ ''## Problem Statement'' @ [nl, nl]"

definition footer :: string where
  "footer =
     [nl, nl] @ ''## Notes'' @ [nl, nl]
     @ ''This problem was imported from LeetCode. ''
     @ ''For the most up-to-date version and additional test cases, ''
     @ ''please visit the problem on LeetCode.''"

definition filler :: string where
  "filler =
     [nl, nl] @ ''This is a programming challenge that tests your problem-solving skills.''"

function pad_loop :: "string \<Rightarrow> string" where
  "pad_loop full_desc =
     (if length full_desc < 500 then pad_loop (full_desc @ filler) else full_desc)"
  by pat_completeness auto
termination
  by (relation "measure (\<lambda>full_desc. 500 - length full_desc)") (auto simp: filler_def)

declare pad_loop.simps [simp del]

definition pad_description :: "string \<Rightarrow> string \<Rightarrow> string \<Rightarrow> string" where
  "pad_description desc title difficulty =
     pad_loop (header title difficulty @ desc @ footer)"

text \<open>
  The step of \<open>ProblemTransformer.transform\<close> that fixes the description: the text
  converted from the HTML content (the argument) is padded only when it is shorter than
  500 characters.
\<close>

definition transform_description :: "string \<Rightarrow> string \<Rightarrow> string \<Rightarrow> string" where
  "transform_description description title difficulty =
     (if length description < 500 then pad_description description title difficulty
      else description)"

section \<open>Category inference\<close>

text \<open>
  \<open>ProblemTransformer._map_category\<close> of \<^verbatim>\<open>seed_leetcode.py\<close>. The test
  \<^verbatim>\<open>any(t in tag_lower for t in keys)\<close> asks whether one of the keys is an element of the
  list of lower-cased tags.
\<close>

definition map_category :: "string list \<Rightarrow> string" where
  "map_category tags =
     (let tag_lower = map lower tags in
      if list_ex (\<lambda>t. t \<in> set tag_lower) [''dynamic programming'', ''dp'']
        then ''Dynamic Programming''
      else if list_ex (\<lambda>t. t \<in> set tag_lower) [''graph'', ''tree'', ''dfs'', ''bfs'']
        then ''Graph Theory''
      else if list_ex (\<lambda>t. t \<in> set tag_lower) [''array'', ''hash table'', ''stack'', ''queue'']
        then ''Data Structure''
      else if list_ex (\<lambda>t. t \<in> set tag_lower) [''math'', ''geometry'']
        then ''Mathematics''
      else if list_ex (\<lambda>t. t \<in> set tag_lower) [''string'']
        then ''String Processing''
      else ''Algorithm'')"

text \<open>\<open>DifficultyMapper.get_category_from_tags\<close> of \<^verbatim>\<open>seed_problems_api.py\<close>.\<close>

definition get_category_from_tags :: "string list \<Rightarrow> string" where
  "get_category_from_tags tags =
     (let tag_lower = map lower tags in
      if list_ex (\<lambda>t. t \<in> set tag_lower) [''dp'', ''dynamic programming'']
        then ''Dynamic Programming''
      else if list_ex (\<lambda>t. t \<in> set tag_lower) [''graph'', ''trees'', ''dfs'', ''bfs'']
        then ''Graph Theory''
      else if list_ex (\<lambda>t. t \<in> set tag_lower) [''data structures'', ''dsu'', ''segment tree'']
        then ''Data Structure''
      else if list_ex (\<lambda>t. t \<in> set tag_lower) [''math'', ''number theory'', ''combinatorics'']
        then ''Mathematics''
      else if list_ex (\<lambda>t. t \<in> set tag_lower) [''strings'', ''string'']
        then ''String Processing''
      else ''Algorithm'')"

text \<open>
  The specification's reading: an ordered list of rules, each a set of keys with a
  category; the first rule with a key in the lower-cased tag set gives the category, and
  \<open>Algorithm\<close> is the default. Each script has its own rule list.
\<close>

fun first_match :: "(string set \<times> string) list \<Rightarrow> string set \<Rightarrow> string" where
  "first_match [] tag_set = ''Algorithm''"
| "first_match ((keys, category) # rules) tag_set =
     (if keys \<inter> tag_set \<noteq> {} then category else first_match rules tag_set)"

definition leetcode_rules :: "(string set \<times> string) list" where
  "leetcode_rules =
     [({''dynamic programming'', ''dp''}, ''Dynamic Programming''),
      ({''graph'', ''tree'', ''dfs'', ''bfs''}, ''Graph Theory''),
      ({''array'', ''hash table'', ''stack'', ''queue''}, ''Data Structure''),
      ({''math'', ''geometry''}, ''Mathematics''),
      ({''string''}, ''String Processing'')]"

definition codeforces_rules :: "(string set \<times> string) list" where
  "codeforces_rules =
     [({''dynamic programming'', ''dp''}, ''Dynamic Programming''),
      ({''graph'', ''trees'', ''dfs'', ''bfs''}, ''Graph Theory''),
      ({''data structures'', ''dsu'', ''segment tree''}, ''Data Structure''),
      ({''math'', ''number theory'', ''combinatorics''}, ''Mathematics''),
      ({''string'', ''strings''}, ''String Processing'')]"

section \<open>Validation\<close>

text \<open>
  The record handed to a validator is the dict built by the transformer; only its four
  text fields are inspected, so it is modelled as a map from field names to texts. A
  present field is falsy exactly when its text is empty.
\<close>

type_synonym problem_data = "string \<rightharpoonup> string"

text \<open>
  \<open>DataValidator.validate\<close> of \<^verbatim>\<open>seed_problems_api.py\<close>. \<open>required_loop_api\<close> is the loop
  over the required fields; the error list is threaded through all four checks.
\<close>

fun required_loop_api :: "problem_data \<Rightarrow> string list \<Rightarrow> string list \<Rightarrow> string list" where
  "required_loop_api problem_data [] errors = errors"
| "required_loop_api problem_data (field # fields) errors =
     required_loop_api problem_data fields
       (if problem_data field = None \<or> problem_data field = Some []
        then errors @ [''Missing required field: '' @ field]
        else errors)"

definition validate_api :: "problem_data \<Rightarrow> bool \<times> string list" where
  "validate_api problem_data =
     (let errors = required_loop_api problem_data
                     [''title'', ''description'', ''difficulty'', ''externalId''] [];
          errors = (case problem_data ''difficulty'' of
                      None \<Rightarrow> errors
                    | Some d \<Rightarrow>
                        if d \<notin> set [''easy'', ''medium'', ''hard'']
                        then errors @ [''Invalid difficulty: '' @ d]
                        else errors);
          errors = (case problem_data ''description'' of
                      None \<Rightarrow> errors
                    | Some d \<Rightarrow>
                        if length d < 500
                        then errors @ [''Description too short: '' @ str_nat (length d)
                                       @ '' chars (minimum 500)'']
                        else errors);
          errors = (case problem_data ''title'' of
                      None \<Rightarrow> errors
                    | Some t \<Rightarrow>
                        if length t > 200
                        then errors @ [''Title too long: '' @ str_nat (length t)
                                       @ '' chars (maximum 200)'']
                        else errors)
      in (length errors = 0, errors))"

text \<open>\<open>DataValidator.validate\<close> of \<^verbatim>\<open>seed_leetcode.py\<close>.\<close>

fun required_loop_leetcode :: "problem_data \<Rightarrow> string list \<Rightarrow> string list \<Rightarrow> string list" where
  "required_loop_leetcode problem_data [] errors = errors"
| "required_loop_leetcode problem_data (field # fields) errors =
     required_loop_leetcode problem_data fields
       (if problem_data field = None \<or> problem_data field = Some []
        then errors @ [''Missing: '' @ field]
        else errors)"

definition validate_leetcode :: "problem_data \<Rightarrow> bool \<times> string list" where
  "validate_leetcode problem_data =
     (let errors = required_loop_leetcode problem_data
                     [''title'', ''description'', ''difficulty'', ''externalId''] [];
          errors = (case problem_data ''difficulty'' of
                      None \<Rightarrow> errors
                    | Some d \<Rightarrow>
                        if d \<notin> set [''easy'', ''medium'', ''hard'']
                        then errors @ [''Invalid difficulty: '' @ d]
                        else errors);
          errors = (case problem_data ''description'' of
                      None \<Rightarrow> errors
                    | Some d \<Rightarrow>
                        if length d < 500
                        then errors @ [''Description too short: '' @ str_nat (length d)
                                       @ '' chars'']
                        else errors)
      in (length errors = 0, errors))"

text \<open>
  The rules of the specification on a record: the four fields present and non-empty, the
  difficulty one of the three levels, the description of at least 500 characters, and
  the title of at most 200.
\<close>

definition fields_present :: "problem_data \<Rightarrow> bool" where
  "fields_present problem_data =
     list_all (\<lambda>field. problem_data field \<noteq> None \<and> problem_data field \<noteq> Some [])
       [''title'', ''description'', ''difficulty'', ''externalId'']"

definition difficulty_ok :: "problem_data \<Rightarrow> bool" where
  "difficulty_ok problem_data =
     (case problem_data ''difficulty'' of
        None \<Rightarrow> False | Some d \<Rightarrow> d \<in> {''easy'', ''medium'', ''hard''})"

definition description_ok :: "problem_data \<Rightarrow> bool" where
  "description_ok problem_data =
     (case problem_data ''description'' of None \<Rightarrow> False | Some d \<Rightarrow> 500 \<le> length d)"

definition title_ok :: "problem_data \<Rightarrow> bool" where
  "title_ok problem_data =
     (case problem_data ''title'' of None \<Rightarrow> False | Some t \<Rightarrow> length t \<le> 200)"

text \<open>A record that breaks the title rule only: its title has 201 characters.\<close>

definition long_title_problem :: problem_data where
  "long_title_problem =
     [''title'' \<mapsto> replicate 201 (CHR ''T''),
      ''description'' \<mapsto> replicate 500 (CHR ''d''),
      ''difficulty'' \<mapsto> ''easy'',
      ''externalId'' \<mapsto> ''leetcode_1'']"

section \<open>The retrying fetcher\<close>

text \<open>
  \<open>CodeforcesClient._retry_request\<close> of \<^verbatim>\<open>seed_problems.py\<close>. What \<^verbatim>\<open>session.get\<close> does at an
  attempt is an \<open>outcome\<close>: a response with its status code, or one of the exceptions of
  the \<^verbatim>\<open>requests\<close> library. The server is a function from the attempt number to the
  outcome of that attempt. The effects are recorded in a trace: every request issued and
  every \<^verbatim>\<open>time.sleep\<close> with its duration in seconds.
\<close>

datatype outcome = Response nat | Timeout | ConnectionError | RequestException

text \<open>
  The exception kept in \<^verbatim>\<open>last_exception\<close>; \<open>HTTPError\<close> is what \<^verbatim>\<open>raise_for_status\<close> raises
  for a status code from 400 on.
\<close>

datatype exn = TimeoutExc | ConnectionExc | RequestExc | HTTPError nat

text \<open>
  The two exceptions the function raises itself: \<^verbatim>\<open>Problem not found (404)\<close>, and
  \<^verbatim>\<open>Failed after {max_retries} attempts: {last_exception}\<close> with the two values its
  message is built from.
\<close>

datatype fetch_error = NotFound | Failed nat "exn option"

datatype io = Get | Sleep real

text \<open>
  The loop \<^verbatim>\<open>for attempt in range(self.max_retries)\<close>, over the list of attempt numbers still
  to come. A 404 raises a plain \<^verbatim>\<open>Exception\<close>, which none of the handlers catches; the
  handler for \<^verbatim>\<open>RequestException\<close> sleeps only when another attempt follows.
\<close>

fun retry_loop ::
  "real \<Rightarrow> nat \<Rightarrow> (nat \<Rightarrow> outcome) \<Rightarrow> nat list \<Rightarrow> exn option \<Rightarrow> io list
     \<Rightarrow> (fetch_error + nat) \<times> io list" where
  "retry_loop delay_seconds max_retries server [] last_exception trace =
     (Inl (Failed max_retries last_exception), trace)"
| "retry_loop delay_seconds max_retries server (attempt # rest) last_exception trace =
     (case server attempt of
        Response status_code \<Rightarrow>
          if status_code = 429 then
            retry_loop delay_seconds max_retries server rest last_exception
              (trace @ [Get, Sleep (2 ^ attempt * delay_seconds)])
          else if status_code = 404 then (Inl NotFound, trace @ [Get])
          else if status_code \<ge> 500 then
            retry_loop delay_seconds max_retries server rest last_exception
              (trace @ [Get, Sleep (2 ^ attempt * delay_seconds)])
          else if status_code \<ge> 400 then
            retry_loop delay_seconds max_retries server rest (Some (HTTPError status_code))
              (if int attempt < int max_retries - 1
               then trace @ [Get, Sleep (2 ^ attempt * delay_seconds)] else trace @ [Get])
          else (Inr status_code, trace @ [Get])
      | Timeout \<Rightarrow>
          retry_loop delay_seconds max_retries server rest (Some TimeoutExc)
            (trace @ [Get, Sleep (2 ^ attempt * delay_seconds)])
      | ConnectionError \<Rightarrow>
          retry_loop delay_seconds max_retries server rest (Some ConnectionExc)
            (trace @ [Get, Sleep (2 ^ attempt * delay_seconds)])
      | RequestException \<Rightarrow>
          retry_loop delay_seconds max_retries server rest (Some RequestExc)
            (if int attempt < int max_retries - 1
             then trace @ [Get, Sleep (2 ^ attempt * delay_seconds)] else trace @ [Get]))"

text \<open>The result is the error raised or the status code of the response returned.\<close>

definition retry_request ::
  "real \<Rightarrow> nat \<Rightarrow> (nat \<Rightarrow> outcome) \<Rightarrow> (fetch_error + nat) \<times> io list" where
  "retry_request delay_seconds max_retries server =
     retry_loop delay_seconds max_retries server [0 ..< max_retries] None []"

text \<open>
  For the statements: the trace of attempts that are each followed by the exponential
  backoff, and the outcomes after which the loop backs off and goes on.
\<close>

definition backoff :: "real \<Rightarrow> nat list \<Rightarrow> io list" where
  "backoff delay_seconds attempts =
     concat (map (\<lambda>attempt. [Get, Sleep (2 ^ attempt * delay_seconds)]) attempts)"

fun transient :: "outcome \<Rightarrow> bool" where
  "transient (Response status_code) = (status_code = 429 \<or> status_code \<ge> 500)"
| "transient Timeout = True"
| "transient ConnectionError = True"
| "transient RequestException = False"

section \<open>The rate limit\<close>

text \<open>
  \<open>CodeforcesClient._rate_limit\<close> and \<open>fetch_problem\<close> of \<^verbatim>\<open>seed_problems.py\<close>, over an explicit
  clock: \<open>now\<close> is what \<^verbatim>\<open>time.time()\<close> returns, in seconds as a real number, and the
  statements of the function itself take no time. \<^verbatim>\<open>time.sleep(t)\<close> advances the clock by
  \<open>t\<close> and by an overrun, which the scheduler decides.
\<close>

record fetcher =
  now :: real
  last_request_time :: real

definition rate_limit :: "real \<Rightarrow> real \<Rightarrow> fetcher \<Rightarrow> fetcher" where
  "rate_limit delay_seconds overrun self =
     (let current_time = now self;
          time_since_last = current_time - last_request_time self;
          self = (if time_since_last < delay_seconds
                  then (let sleep_time = delay_seconds - time_since_last
                        in self\<lparr>now := now self + sleep_time + overrun\<rparr>)
                  else self)
      in self\<lparr>last_request_time := now self\<rparr>)"

text \<open>
  \<open>fetch_problem\<close> applies the rate limit and then issues its request, which (with its
  retries) lasts \<open>duration\<close> seconds. The result is the time at which the request was
  issued, and the state when the call completes.
\<close>

definition fetch_problem :: "real \<Rightarrow> real \<Rightarrow> real \<Rightarrow> fetcher \<Rightarrow> real \<times> fetcher" where
  "fetch_problem delay_seconds overrun duration self =
     (let self = rate_limit delay_seconds overrun self;
          issued = now self
      in (issued, self\<lparr>now := now self + duration\<rparr>))"

text \<open>The caller spends \<open>t\<close> seconds between two calls.\<close>

definition idle :: "real \<Rightarrow> fetcher \<Rightarrow> fetcher" where
  "idle t self = self\<lparr>now := now self + t\<rparr>"

text \<open>
  A run with a delay of 2 seconds: a first call at time 100 whose request lasts 5
  seconds, and a second call made as soon as the first has returned.
\<close>

definition slow_first_call :: "real \<times> fetcher" where
  "slow_first_call = fetch_problem 2 0 5 \<lparr>now = 100, last_request_time = 0\<rparr>"

definition prompt_second_call :: "real \<times> fetcher" where
  "prompt_second_call = fetch_problem 2 0 1 (idle 0 (snd slow_first_call))"

section \<open>The persistence gateway\<close>
















section \<open>LeetCode rich-text segmentation\<close>

text \<open>
  \<open>LeetCodeCompleteScraper.parse_html_content\<close> of \<^verbatim>\<open>scrape_leetcode_complete.py\<close>. Its
  \<open>ContentParser\<close> is a subclass of the standard library's \<open>HTMLParser\<close>, which calls the
  three handlers below once per start tag, end tag and run of text.
\<close>

datatype event = StartTag string | EndTag string | Data string

text \<open>The character classes of the tokenizer's patterns.\<close>

definition is_letter :: "char \<Rightarrow> bool" where
  "is_letter c = (let n = (of_char c :: int) in (65 \<le> n \<and> n \<le> 90) \<or> (97 \<le> n \<and> n \<le> 122))"

definition is_digit :: "char \<Rightarrow> bool" where
  "is_digit c = (let n = (of_char c :: int) in 48 \<le> n \<and> n \<le> 57)"

definition start_name_char :: "char \<Rightarrow> bool" where
  "start_name_char c =
     (c \<notin> {CHR 0x09, CHR 0x0A, CHR 0x0D, CHR 0x0C, CHR '' '', CHR ''/'', CHR ''>'', CHR 0x00})"

definition end_name_char :: "char \<Rightarrow> bool" where
  "end_name_char c =
     (is_letter c \<or> is_digit c \<or> c \<in> {CHR ''-'', CHR ''.'', CHR '':'', CHR ''_''})"

text \<open>
  The handler calls that \<^verbatim>\<open>feed\<close> makes on a document, following \<open>HTMLParser.goahead\<close> of
  Python 3.11, for documents whose text has no character reference (\<open>&\<close>) and whose tags
  are of the plain forms \<^verbatim>\<open><name>\<close> and \<^verbatim>\<open></name>\<close>; the result is \<open>None\<close> for a document
  outside this fragment (attributes, comments, declarations, \<open>script\<close> and \<open>style\<close>).
  Text runs up to the next \<^verbatim>\<open><\<close>; a \<^verbatim>\<open><\<close> that opens no tag is passed on as the text
  \<^verbatim>\<open><\<close> of its own; an unfinished tag at the end of the document waits for more input,
  which never comes, since the scraper does not call \<^verbatim>\<open>close\<close>.
\<close>

function html_events :: "string \<Rightarrow> event list option" where
  "html_events [] = Some []"
| "html_events (c # cs) =
     (if c \<noteq> CHR ''<'' then
        (let data = c # takeWhile (\<lambda>x. x \<noteq> CHR ''<'') cs;
             rest = dropWhile (\<lambda>x. x \<noteq> CHR ''<'') cs
         in if CHR ''&'' \<in> set data then None
            else map_option (\<lambda>events. Data data # events) (html_events rest))
      else
        (case cs of
           [] \<Rightarrow> Some []
         | d # ds \<Rightarrow>
             if is_letter d then
               (let name = takeWhile start_name_char cs in
                case dropWhile start_name_char cs of
                  [] \<Rightarrow> Some []
                | e # rest \<Rightarrow>
                    if e = CHR ''>'' \<and> lower name \<notin> {''script'', ''style''}
                    then map_option (\<lambda>events. StartTag (lower name) # events) (html_events rest)
                    else None)
             else if d = CHR ''/'' then
               (if CHR ''>'' \<notin> set ds then Some []
                else
                  (let name = takeWhile end_name_char ds in
                   case dropWhile end_name_char ds of
                     [] \<Rightarrow> None
                   | e # rest \<Rightarrow>
                       if e = CHR ''>'' \<and> (case name of [] \<Rightarrow> False | a # as \<Rightarrow> is_letter a)
                       then map_option (\<lambda>events. EndTag (lower name) # events) (html_events rest)
                       else None))
             else if d = CHR ''!'' \<or> d = CHR ''?'' then None
             else map_option (\<lambda>events. Data ''<'' # events) (html_events cs)))"
  by pat_completeness auto
termination
proof (relation "measure length")
  show "wf (measure length)" by simp
next
  fix c :: char and cs data rest
  assume "rest = dropWhile (\<lambda>x. x \<noteq> CHR ''<'') cs"
  then show "(rest, c # cs) \<in> measure length"
    using length_dropWhile_le[of "\<lambda>x. x \<noteq> CHR ''<''" cs] by simp
next
  fix c :: char and cs d ds name e rest
  assume "dropWhile start_name_char cs = e # rest"
  then show "(rest, c # cs) \<in> measure length"
    using length_dropWhile_le[of start_name_char cs] by simp
next
  fix c :: char and cs d ds name e rest
  assume "cs = d # ds" and "dropWhile end_name_char ds = e # rest"
  then show "(rest, c # cs) \<in> measure length"
    using length_dropWhile_le[of end_name_char ds] by simp
next
  fix c :: char and cs :: string
  show "(cs, c # cs) \<in> measure length" by simp
qed

text \<open>The attributes of a \<open>ContentParser\<close> and its handlers.\<close>

record parser_state =
  text_parts :: "string list"
  in_pre :: bool
  in_strong :: bool
  current_text :: "string list"

definition handle_starttag :: "string \<Rightarrow> parser_state \<Rightarrow> parser_state" where
  "handle_starttag tag self =
     (if tag = ''pre'' then self\<lparr>in_pre := True\<rparr>
      else if tag = ''strong'' then self\<lparr>in_strong := True\<rparr>
      else if tag \<in> set [''p'', ''div''] then
        (if current_text self \<noteq> [] then
           self\<lparr>text_parts := text_parts self @ [strip (concat (current_text self))],
                current_text := []\<rparr>
         else self)
      else self)"

definition handle_endtag :: "string \<Rightarrow> parser_state \<Rightarrow> parser_state" where
  "handle_endtag tag self =
     (if tag = ''pre'' then
        (let self = self\<lparr>in_pre := False\<rparr> in
         if current_text self \<noteq> [] then
           self\<lparr>text_parts := text_parts self @
                    [''```'' @ [nl] @ strip (concat (current_text self)) @ [nl] @ ''```''],
                current_text := []\<rparr>
         else self)
      else if tag = ''strong'' then self\<lparr>in_strong := False\<rparr>
      else self)"

definition handle_data :: "string \<Rightarrow> parser_state \<Rightarrow> parser_state" where
  "handle_data data self =
     (if strip data \<noteq> [] then
        (if in_strong self then
           self\<lparr>current_text := current_text self @ [''**'' @ data @ ''**'']\<rparr>
         else self\<lparr>current_text := current_text self @ [data]\<rparr>)
      else self)"

text \<open>\<^verbatim>\<open>sep.join(parts)\<close>.\<close>

fun join :: "string \<Rightarrow> string list \<Rightarrow> string" where
  "join sep [] = []"
| "join sep [x] = x"
| "join sep (x # y # ys) = x @ sep @ join sep (y # ys)"

text \<open>\<open>ContentParser.get_text\<close>.\<close>

definition parser_get_text :: "parser_state \<Rightarrow> string" where
  "parser_get_text self =
     (let self = (if current_text self \<noteq> [] then
                    self\<lparr>text_parts := text_parts self @ [strip (concat (current_text self))]\<rparr>
                  else self)
      in join [nl, nl] (text_parts self))"

text \<open>\<^verbatim>\<open>parser.feed\<close> on the handler calls of the document, from a fresh parser.\<close>

fun feed :: "event list \<Rightarrow> parser_state \<Rightarrow> parser_state" where
  "feed [] self = self"
| "feed (StartTag tag # events) self = feed events (handle_starttag tag self)"
| "feed (EndTag tag # events) self = feed events (handle_endtag tag self)"
| "feed (Data data # events) self = feed events (handle_data data self)"

definition content_parser :: parser_state where
  "content_parser = \<lparr>text_parts = [], in_pre = False, in_strong = False, current_text = []\<rparr>"

text \<open>
  The regular expressions, all compiled with \<^verbatim>\<open>re.DOTALL | re.IGNORECASE\<close>. An anchor
  is a pattern that matches at the start of a text and gives back the text after the
  match: a literal label, \<^verbatim>\<open>Example \d+:\<close>, or \<^verbatim>\<open>Constraints?:\<close>.
\<close>

definition ci_prefix :: "string \<Rightarrow> string \<Rightarrow> bool" where
  "ci_prefix p s = (length p \<le> length s \<and> lower (take (length p) s) = lower p)"

definition literal_anchor :: "string \<Rightarrow> string \<Rightarrow> string option" where
  "literal_anchor p s = (if ci_prefix p s then Some (drop (length p) s) else None)"

definition example_anchor :: "string \<Rightarrow> string option" where
  "example_anchor s =
     (if ci_prefix ''Example '' s then
        (let r = drop 8 s in
         case dropWhile is_digit r of
           [] \<Rightarrow> None
         | c # rest \<Rightarrow> if takeWhile is_digit r \<noteq> [] \<and> c = CHR '':'' then Some rest else None)
      else None)"

definition constraints_anchor :: "string \<Rightarrow> string option" where
  "constraints_anchor s =
     (if ci_prefix ''Constraint'' s then
        (case drop 10 s of
           [] \<Rightarrow> None
         | c # r \<Rightarrow>
             if c = CHR '':'' then Some r
             else if lower_char c = CHR ''s'' then
               (case r of [] \<Rightarrow> None | c2 # r2 \<Rightarrow> if c2 = CHR '':'' then Some r2 else None)
             else None)
      else None)"

text \<open>\<^verbatim>\<open>$\<close> without \<^verbatim>\<open>re.MULTILINE\<close>: the end of the text, or just before a final line feed.\<close>

definition at_end :: "string \<Rightarrow> bool" where
  "at_end s = (s = [] \<or> s = [nl])"

text \<open>
  The lazy group \<^verbatim>\<open>(.*?)\<close> in front of a lookahead: the shortest prefix after which the
  lookahead holds, and the text left. Every lookahead of the script has the alternative
  \<^verbatim>\<open>$\<close>, so the end of the text always stops the group.
\<close>

fun lazy_until :: "(string \<Rightarrow> bool) \<Rightarrow> string \<Rightarrow> string \<times> string" where
  "lazy_until stop [] = ([], [])"
| "lazy_until stop (c # cs) =
     (if stop (c # cs) then ([], c # cs)
      else (case lazy_until stop cs of (body, rest) \<Rightarrow> (c # body, rest)))"

text \<open>\<^verbatim>\<open>re.search\<close> for an anchor: the text after its leftmost match.\<close>

fun search :: "(string \<Rightarrow> string option) \<Rightarrow> string \<Rightarrow> string option" where
  "search anchor [] = None"
| "search anchor (c # cs) =
     (case anchor (c # cs) of Some r \<Rightarrow> Some r | None \<Rightarrow> search anchor cs)"

text \<open>The lookahead \<^verbatim>\<open>(?=Example \d+:|Constraints:|$)\<close> that ends an example block.\<close>

definition example_stop :: "string \<Rightarrow> bool" where
  "example_stop r = (example_anchor r \<noteq> None \<or> ci_prefix ''Constraints:'' r \<or> at_end r)"


text \<open>
  \<^verbatim>\<open>re.finditer\<close> of the example pattern: the groups of the successive matches, each
  search starting where the previous match ended.
\<close>

function example_blocks :: "string \<Rightarrow> string list" where
  "example_blocks s =
     (case search example_anchor s of
        None \<Rightarrow> []
      | Some after \<Rightarrow>
          (case lazy_until example_stop after of
             (body, rest) \<Rightarrow> body # example_blocks rest))"
  by pat_completeness auto
termination
proof (relation "measure length")
  show "wf (measure length)" by simp
next
  fix s after body rest
  assume found: "search example_anchor s = Some after"
    and split: "(body, rest) = lazy_until example_stop after"
  have anchor: "length r < length t" if "example_anchor t = Some r" for t r
  proof -
    from that obtain c where c: "dropWhile is_digit (drop 8 t) = c # r"
      by (auto simp: example_anchor_def Let_def split: if_splits list.splits)
    have "length (dropWhile is_digit (drop 8 t)) \<le> length (drop 8 t)"
      by (rule length_dropWhile_le)
    with c show ?thesis by simp
  qed
  have found_shorter: "length r < length t" if "search example_anchor t = Some r" for t r
    using that
  proof (induction t)
    case Nil
    then show ?case by simp
  next
    case (Cons a t)
    then show ?case
      by (cases "example_anchor (a # t)") (auto dest: anchor)
  qed
  have rest_le: "length (snd (lazy_until stop t)) \<le> length t" for stop t
    by (induction t) (auto split: prod.splits)
  from rest_le[of example_stop after] split[symmetric] have "length rest \<le> length after"
    by simp
  with found_shorter[OF found] show "(rest, s) \<in> measure length"
    by simp
qed

declare example_blocks.simps [simp del]

text \<open>
  The body of the loop over the matches: the dict of one example, with the keys whose
  pattern matched.
\<close>

definition parse_example :: "string \<Rightarrow> dict" where
  "parse_example block =
     (let example_text = strip block;
          input_match =
            map_option (\<lambda>after. fst (lazy_until (\<lambda>r. ci_prefix ''Output:'' r \<or> at_end r) after))
              (search (literal_anchor ''Input:'') example_text);
          output_match =
            map_option (\<lambda>after. fst (lazy_until (\<lambda>r. ci_prefix ''Explanation:'' r \<or> at_end r) after))
              (search (literal_anchor ''Output:'') example_text);
          explanation_match =
            map_option (\<lambda>after. fst (lazy_until at_end after))
              (search (literal_anchor ''Explanation:'') example_text)
      in (case input_match of Some g \<Rightarrow> [(''input'', strip g)] | None \<Rightarrow> [])
         @ (case output_match of Some g \<Rightarrow> [(''output'', strip g)] | None \<Rightarrow> [])
         @ (case explanation_match of Some g \<Rightarrow> [(''explanation'', strip g)] | None \<Rightarrow> []))"

definition parse_examples :: "string \<Rightarrow> dict list" where
  "parse_examples full_text =
     filter (\<lambda>example. example \<noteq> []) (map parse_example (example_blocks full_text))"

text \<open>
  The characters of \<^verbatim>\<open>lstrip\<close> in the constraints: the hyphen and the asterisk (the
  third one, the bullet U+2022, lies outside the 8-bit characters of this model).
\<close>

definition bullet_markers :: string where
  "bullet_markers = ''-*''"

text \<open>The lookahead \<^verbatim>\<open>(?=\n\n|$)\<close> that ends the constraints block.\<close>

definition constraints_stop :: "string \<Rightarrow> bool" where
  "constraints_stop r = (take 2 r = [nl, nl] \<or> at_end r)"

definition parse_constraints :: "string \<Rightarrow> string list" where
  "parse_constraints full_text =
     (case search constraints_anchor full_text of
        None \<Rightarrow> []
      | Some after \<Rightarrow>
          (let constraints_text =
                 strip (fst (lazy_until constraints_stop after));
               constraint_lines =
                 map strip (filter (\<lambda>line. strip line \<noteq> []) (split_nl constraints_text))
           in map (\<lambda>line. strip (dropWhile (\<lambda>c. c \<in> set bullet_markers) line))
                (filter (\<lambda>line. strip line \<noteq> []) constraint_lines)))"

text \<open>The lookahead \<^verbatim>\<open>(?=Example \d+:|Constraints?:|$)\<close> that ends the description.\<close>

definition description_stop :: "string \<Rightarrow> bool" where
  "description_stop r =
     (example_anchor r \<noteq> None \<or> constraints_anchor r \<noteq> None \<or> at_end r)"

text \<open>The dict returned, and the segmentation of the converted text.\<close>

record parsed =
  description :: string
  examples :: "dict list"
  constraints :: "string list"

definition segment :: "string \<Rightarrow> parsed" where
  "segment full_text =
     \<lparr>description = strip (fst (lazy_until description_stop full_text)),
      examples = parse_examples full_text,
      constraints = parse_constraints full_text\<rparr>"

text \<open>
  The argument is \<open>None\<close> for an absent content; \<^verbatim>\<open>not html_content\<close> holds for it and for
  the empty text. The standard library's \<^verbatim>\<open>parser.feed\<close> is a parameter: \<open>html_parser\<close> gives
  the handler calls it makes on a document, or \<open>None\<close> when it raises (the function has no
  handler, so the exception leaves it); \<open>html_events\<close> above is that parameter on plain
  markup.
\<close>

definition parse_html_content ::
  "(string \<Rightarrow> event list option) \<Rightarrow> string option \<Rightarrow> parsed option" where
  "parse_html_content html_parser html_content =
     (case html_content of
        None \<Rightarrow> Some \<lparr>description = [], examples = [], constraints = []\<rparr>
      | Some s \<Rightarrow>
          if s = [] then Some \<lparr>description = [], examples = [], constraints = []\<rparr>
          else (case html_parser s of
                  None \<Rightarrow> None
                | Some events \<Rightarrow>
                    Some (segment (parser_get_text (feed events content_parser)))))"

text \<open>
  For the statements: the three sub-fields of an example, each with its key, its label
  and the lookahead that ends it (\<^verbatim>\<open>(?=Output:|$)\<close>, \<^verbatim>\<open>(?=Explanation:|$)\<close> and \<^verbatim>\<open>$\<close>).
\<close>

definition sub_field_rules :: "(string \<times> string \<times> (string \<Rightarrow> bool)) list" where
  "sub_field_rules =
     [(''input'', ''Input:'', \<lambda>r. ci_prefix ''Output:'' r \<or> at_end r),
      (''output'', ''Output:'', \<lambda>r. ci_prefix ''Explanation:'' r \<or> at_end r),
      (''explanation'', ''Explanation:'', at_end)]"

text \<open>
  The content of scenario C, the same content with the labels in other letter cases, and
  an example whose input is followed by an explanation and no output.
\<close>

definition scenario_c :: string where
  "scenario_c = ''<p>Find X</p>Example 1:'' @ [nl] @ ''Input: [1,2]'' @ [nl] @ ''Output: 3''
                @ [nl] @ ''Constraints:'' @ [nl] @ ''- 1<=n<=100''"

definition scenario_c_mixed :: string where
  "scenario_c_mixed = ''<p>Find X</p>EXAMPLE 1:'' @ [nl] @ ''input: [1,2]'' @ [nl] @ ''OUTPUT: 3''
                @ [nl] @ ''constraints:'' @ [nl] @ ''- 1<=n<=100''"

definition input_then_explanation :: string where
  "input_then_explanation = ''Example 1:'' @ [nl] @ ''Input: 1'' @ [nl] @ ''Explanation: e''"

section \<open>Properties\<close>

subsection \<open>Difficulty bucketing\<close>

text \<open>
  C1: an absent rating maps to medium; a rating \<open>r\<close> maps to easy exactly when \<open>r < 1200\<close>,
  to hard exactly when \<open>r > 1600\<close>, and to medium exactly when \<open>1200 \<le> r \<le> 1600\<close>; the
  boundary ratings 1199, 1200, 1600 and 1601 map to easy, medium, medium and hard; and
  the two implementations of \<open>map_rating\<close> return the same value on every input.
\<close>

theorem map_rating_buckets:
  "map_rating None = ''medium''
   \<and> (map_rating (Some r) = ''easy'') = (r < 1200)
   \<and> (map_rating (Some r) = ''medium'') = (1200 \<le> r \<and> r \<le> 1600)
   \<and> (map_rating (Some r) = ''hard'') = (1600 < r)
   \<and> map_rating (Some 1199) = ''easy''
   \<and> map_rating (Some 1200) = ''medium''
   \<and> map_rating (Some 1600) = ''medium''
   \<and> map_rating (Some 1601) = ''hard''
   \<and> map_rating_api rating = map_rating rating"
  by (simp add: map_rating_def map_rating_api_def)

subsection \<open>LeetCode example test cases\<close>

text \<open>
  Loop invariant: entering the loop at the even index \<open>2 * j\<close> with \<open>j\<close> cases collected,
  the loop appends the cases \<open>j, j + 1, \<dots>\<close> up to the last complete pair.
\<close>

lemma parse_loop_pairs:
  "length acc = j \<Longrightarrow> i = 2 * j \<Longrightarrow>
   parse_loop lines i acc = acc @ map (example_case lines) [j ..< length lines div 2]"
proof (induction lines i acc arbitrary: j rule: parse_loop.induct)
  case (1 lines i test_cases)
  show ?case
  proof (cases "i < length lines")
    case False
    with 1 have "length lines div 2 \<le> j" by simp
    with False show ?thesis by (subst parse_loop.simps) simp
  next
    case True
    show ?thesis
    proof (cases "i + 1 < length lines")
      case paired: True
      with 1 have lt: "j < length lines div 2" by simp
      let ?acc = "test_cases @ [example_case lines j]"
      have acc: "(if i + 1 < length lines then
                    test_cases @
                      [[(''input'', strip (lines ! i)),
                        (''output'', strip (lines ! (i + 1))),
                        (''explanation'', ''Example '' @ str_nat (length test_cases + 1))]]
                  else test_cases) = ?acc"
        using 1(2,3) paired by (simp add: example_case_def)
      have "parse_loop lines (i + 2) ?acc =
            ?acc @ map (example_case lines) [Suc j ..< length lines div 2]"
        using "1.IH"[OF True, of "Suc j"] 1(2,3) unfolding acc by simp
      moreover have "parse_loop lines i test_cases = parse_loop lines (i + 2) ?acc"
        using True acc by (subst parse_loop.simps) simp
      ultimately show ?thesis using lt by (simp add: upt_conv_Cons)
    next
      case unpaired: False
      with 1 True have ge: "length lines div 2 \<le> j" by simp
      have "\<not> i + 2 < length lines" using unpaired by simp
      then have "parse_loop lines (i + 2) test_cases = test_cases"
        by (subst parse_loop.simps) simp
      moreover have "parse_loop lines i test_cases = parse_loop lines (i + 2) test_cases"
        using True unpaired by (subst parse_loop.simps) simp
      ultimately show ?thesis using ge by simp
    qed
  qed
qed

text \<open>
  C10: a missing or empty \<open>exampleTestcases\<close> string gives no test case. For a non-empty
  string whose stripped form splits at line feeds into \<open>n\<close> lines, exactly \<open>n div 2\<close> test
  cases are returned, and the \<open>k\<close>-th (from 0) has as input the stripped line \<open>2k\<close>, as
  output the stripped line \<open>2k + 1\<close>, and the explanation \<open>Example k+1\<close>; a last line without
  a partner contributes nothing.
\<close>

theorem parse_test_cases_pairs:
  "parse_test_cases None = []
   \<and> parse_test_cases (Some []) = []
   \<and> (s \<noteq> [] \<longrightarrow>
        length (parse_test_cases (Some s)) = length (split_nl (strip s)) div 2
        \<and> (\<forall>k < length (split_nl (strip s)) div 2.
              parse_test_cases (Some s) ! k =
                [(''input'', strip (split_nl (strip s) ! (2 * k))),
                 (''output'', strip (split_nl (strip s) ! (2 * k + 1))),
                 (''explanation'', ''Example '' @ str_nat (k + 1))]))"
proof -
  have "parse_loop lines 0 [] = map (example_case lines) [0 ..< length lines div 2]" for lines
    using parse_loop_pairs[of "[]" 0 0 lines] by simp
  then show ?thesis
    by (simp add: parse_test_cases_def example_case_def)
qed

text \<open>
  The text \<open>[1,2]\<close>, \<open>3\<close>, \<open>x\<close> on three lines (with blanks around the first two) has three
  lines, so one test case: the third line is dropped.
\<close>

theorem parse_test_cases_pairs_witness:
  "'' [1,2] '' @ [nl] @ ''3 '' @ [nl] @ ''x'' \<noteq> []
   \<and> length (parse_test_cases (Some ('' [1,2] '' @ [nl] @ ''3 '' @ [nl] @ ''x''))) = 1
   \<and> parse_test_cases (Some ('' [1,2] '' @ [nl] @ ''3 '' @ [nl] @ ''x'')) ! 0 =
       [(''input'', ''[1,2]''), (''output'', ''3''), (''explanation'', ''Example 1'')]"
proof -
  let ?s = "'' [1,2] '' @ [nl] @ ''3 '' @ [nl] @ ''x''"
  have lines: "split_nl (strip ?s) = [''[1,2] '', ''3 '', ''x'']"
    by code_simp
  have s1: "strip ''[1,2] '' = ''[1,2]''" and s2: "strip ''3 '' = ''3''"
    by code_simp+
  have n1: "str_nat (Suc 0) = ''1''"
    by code_simp
  have ne: "?s \<noteq> []"
    by simp
  from parse_test_cases_pairs[of ?s] ne
  have "length (parse_test_cases (Some ?s)) = 1"
    and "parse_test_cases (Some ?s) ! 0 =
           [(''input'', ''[1,2]''), (''output'', ''3''), (''explanation'', ''Example 1'')]"
    unfolding lines by (simp_all add: s1 s2 n1)
  with ne show ?thesis by blast
qed

subsection \<open>Sample tests of a Codeforces page\<close>

lemma extract_loop_map:
  "extract_loop i ps acc =
     acc @ map (\<lambda>k. [(''input'', pre_text (fst (ps ! k))),
                       (''output'', pre_text (snd (ps ! k))),
                       (''explanation'', ''Sample test '' @ str_nat (i + k + 1))])
             [0 ..< length ps]"
proof (induction i ps acc rule: extract_loop.induct)
  case (1 i test_cases)
  show ?case by simp
next
  case (2 i input_div output_div rest test_cases)
  have shift: "[0 ..< length ((input_div, output_div) # rest)] = 0 # map Suc [0 ..< length rest]"
    by (simp add: upt_conv_Cons map_Suc_upt del: upt_Suc)
  show ?case
    unfolding shift using 2
    by (simp add: Let_def pre_text_def comp_def)
qed

lemma scrape_loop_filter:
  "scrape_loop ps acc =
     acc @ map (\<lambda>(a, b). [(''input'', pre_text a), (''output'', pre_text b)])
             (filter (\<lambda>(a, b). has_pre a \<and> has_pre b) ps)"
  by (induction ps acc rule: scrape_loop.induct)
     (auto simp: has_pre_def pre_text_def split: option.splits)

lemma filter_zip_all:
  "\<forall>b \<in> set xs \<union> set ys. P b \<Longrightarrow> filter (\<lambda>(a, b). P a \<and> P b) (zip xs ys) = zip xs ys"
  by (rule filter_True) (auto dest: set_zip_leftD set_zip_rightD)

text \<open>
  C8, as the two scripts implement it. Let the first \<open>sample-test\<close> container of the page
  hold the input blocks \<open>ins\<close> and the output blocks \<open>outs\<close>. The parser of
  \<^verbatim>\<open>seed_problems.py\<close> returns exactly \<open>min (length ins) (length outs)\<close> test cases, in
  source order; the \<open>i\<close>-th has the stripped text of the \<open>i\<close>-th input block's \<open>pre\<close>, that
  of the \<open>i\<close>-th output block's \<open>pre\<close> (the empty text where a block has no \<open>pre\<close>), and the
  explanation \<open>Sample test i+1\<close>. The scraper of \<^verbatim>\<open>scrape_codeforces_full.py\<close> pairs the
  blocks in the same way, keeps the pairs in which both blocks have a \<open>pre\<close>, and gives its
  test cases an input and an output only: it returns at most \<open>min (length ins) (length outs)\<close>
  test cases, and exactly that many when every block has a \<open>pre\<close>.
\<close>

theorem sample_tests_pairing:
  assumes "find_node soup ''div'' (Some ''sample-test'') = Some st"
    and "ins = find_all st ''div'' (Some ''input'')"
    and "outs = find_all st ''div'' (Some ''output'')"
  shows "length (extract_test_cases soup) = min (length ins) (length outs)
     \<and> (\<forall>i < min (length ins) (length outs).
           extract_test_cases soup ! i =
             [(''input'', pre_text (ins ! i)),
              (''output'', pre_text (outs ! i)),
              (''explanation'', ''Sample test '' @ str_nat (i + 1))])
     \<and> scrape_sample_tests soup =
         Some (map (\<lambda>(a, b). [(''input'', pre_text a), (''output'', pre_text b)])
                 (filter (\<lambda>(a, b). has_pre a \<and> has_pre b) (zip ins outs)))
     \<and> length (the (scrape_sample_tests soup)) \<le> min (length ins) (length outs)
     \<and> ((\<forall>b \<in> set ins \<union> set outs. has_pre b) \<longrightarrow>
          length (the (scrape_sample_tests soup)) = min (length ins) (length outs))"
proof -
  have ex: "extract_test_cases soup = extract_loop 0 (zip ins outs) []"
    using assms by (simp add: extract_test_cases_def)
  have sc: "scrape_sample_tests soup =
      Some (map (\<lambda>(a, b). [(''input'', pre_text a), (''output'', pre_text b)])
              (filter (\<lambda>(a, b). has_pre a \<and> has_pre b) (zip ins outs)))"
    using assms by (simp add: scrape_sample_tests_def scrape_loop_filter)
  have le: "length (filter (\<lambda>(a, b). has_pre a \<and> has_pre b) (zip ins outs))
              \<le> min (length ins) (length outs)"
    using length_filter_le[of "\<lambda>(a, b). has_pre a \<and> has_pre b" "zip ins outs"] by simp
  have "length (extract_test_cases soup) = min (length ins) (length outs)"
    unfolding ex extract_loop_map by simp
  moreover have "\<forall>i < min (length ins) (length outs).
           extract_test_cases soup ! i =
             [(''input'', pre_text (ins ! i)),
              (''output'', pre_text (outs ! i)),
              (''explanation'', ''Sample test '' @ str_nat (i + 1))]"
    unfolding ex extract_loop_map by simp
  moreover have "length (the (scrape_sample_tests soup)) \<le> min (length ins) (length outs)"
    unfolding sc using le by simp
  moreover have "(\<forall>b \<in> set ins \<union> set outs. has_pre b) \<longrightarrow>
          length (the (scrape_sample_tests soup)) = min (length ins) (length outs)"
    unfolding sc by (simp add: filter_zip_all)
  ultimately show ?thesis using sc by blast
qed

lemma page_regular_container:
  "find_node page_regular ''div'' (Some ''sample-test'') =
     Some (Tag ''div'' [''sample-test'']
          [Tag ''div'' [''input''] [Tag ''div'' [''title''] [Text ''Input''],
                                    Tag ''pre'' [] [Text ''1 2 3'']],
           Tag ''div'' [''output''] [Tag ''div'' [''title''] [Text ''Output''],
                                     Tag ''pre'' [] [Text ''6'']]])"
  by code_simp

theorem sample_tests_pairing_witness:
  "length (extract_test_cases page_regular) = 1
   \<and> extract_test_cases page_regular ! 0 =
       [(''input'', ''1 2 3''), (''output'', ''6''), (''explanation'', ''Sample test 1'')]
   \<and> scrape_sample_tests page_regular = Some [[(''input'', ''1 2 3''), (''output'', ''6'')]]"
proof -
  let ?st = "Tag ''div'' [''sample-test'']
          [Tag ''div'' [''input''] [Tag ''div'' [''title''] [Text ''Input''],
                                    Tag ''pre'' [] [Text ''1 2 3'']],
           Tag ''div'' [''output''] [Tag ''div'' [''title''] [Text ''Output''],
                                     Tag ''pre'' [] [Text ''6'']]]"
  let ?i = "Tag ''div'' [''input''] [Tag ''div'' [''title''] [Text ''Input''],
                                    Tag ''pre'' [] [Text ''1 2 3'']]"
  let ?o = "Tag ''div'' [''output''] [Tag ''div'' [''title''] [Text ''Output''],
                                     Tag ''pre'' [] [Text ''6'']]"
  have ins: "[?i] = find_all ?st ''div'' (Some ''input'')"
    by code_simp
  have outs: "[?o] = find_all ?st ''div'' (Some ''output'')"
    by code_simp
  have pi: "pre_text ?i = ''1 2 3''" and po: "pre_text ?o = ''6''"
    by code_simp+
  have hp: "has_pre ?i" "has_pre ?o"
    by code_simp+
  have n1: "str_nat (Suc 0) = ''1''"
    by code_simp
  from sample_tests_pairing[OF page_regular_container ins outs]
  show ?thesis
    by (simp add: pi po hp n1)
qed

text \<open>
  The claim as worded fails for the scraper of \<^verbatim>\<open>scrape_codeforces_full.py\<close>: a
  container with one input block and one output block, the input block without \<open>pre\<close>,
  gives no test case instead of one; and on a regular page its test case has no
  explanation.
\<close>

theorem sample_tests_pairing_counterexample:
  "find_node page_without_pre ''div'' (Some ''sample-test'') =
     Some (Tag ''div'' [''sample-test'']
          [Tag ''div'' [''input''] [Tag ''div'' [''title''] [Text ''Input'']],
           Tag ''div'' [''output''] [Tag ''div'' [''title''] [Text ''Output''],
                                     Tag ''pre'' [] [Text ''6'']]])
   \<and> length (find_all (the (find_node page_without_pre ''div'' (Some ''sample-test'')))
         ''div'' (Some ''input'')) = 1
   \<and> length (find_all (the (find_node page_without_pre ''div'' (Some ''sample-test'')))
         ''div'' (Some ''output'')) = 1
   \<and> scrape_sample_tests page_without_pre = Some []
   \<and> scrape_sample_tests page_regular = Some [[(''input'', ''1 2 3''), (''output'', ''6'')]]"
  by code_simp

subsection \<open>Description backfill\<close>

lemma pad_loop_floor: "500 \<le> length (pad_loop s)"
proof (induction s rule: pad_loop.induct)
  case (1 full_desc)
  then show ?case
    by (subst pad_loop.simps) simp
qed

text \<open>
  The loop appends whole filler sentences, and each one was appended because the text
  before it was still short.
\<close>

lemma pad_loop_fillers:
  "\<exists>k. pad_loop s = s @ concat (replicate k filler)
       \<and> (\<forall>j<k. length (s @ concat (replicate j filler)) < 500)"
proof (induction s rule: pad_loop.induct)
  case (1 full_desc)
  show ?case
  proof (cases "length full_desc < 500")
    case False
    then have "pad_loop full_desc = full_desc @ concat (replicate 0 filler)"
      by (subst pad_loop.simps) simp
    then show ?thesis by blast
  next
    case True
    from "1.IH"[OF True] obtain k where
      k: "pad_loop (full_desc @ filler) = (full_desc @ filler) @ concat (replicate k filler)"
      and short: "\<forall>j<k. length ((full_desc @ filler) @ concat (replicate j filler)) < 500"
      by blast
    have "pad_loop full_desc = full_desc @ concat (replicate (Suc k) filler)"
      using True k by (subst pad_loop.simps) simp
    moreover have "\<forall>j<Suc k. length (full_desc @ concat (replicate j filler)) < 500"
    proof (intro allI impI)
      fix j assume "j < Suc k"
      show "length (full_desc @ concat (replicate j filler)) < 500"
      proof (cases j)
        case 0
        with True show ?thesis by simp
      next
        case (Suc i)
        with \<open>j < Suc k\<close> short show ?thesis by simp
      qed
    qed
    ultimately show ?thesis by blast
  qed
qed

text \<open>
  C4: the padded description has at least 500 characters for every text, title and
  difficulty; it is the header, the text and the footer followed by a number of filler
  sentences, each added while the text was still shorter than 500 characters; the
  description that \<open>transform\<close> keeps has at least 500 characters as well, and a converted
  description of 500 characters or more is kept as it is.
\<close>

theorem pad_description_floor:
  "500 \<le> length (pad_description desc title difficulty)
   \<and> (\<exists>k. pad_description desc title difficulty =
            header title difficulty @ desc @ footer @ concat (replicate k filler)
          \<and> (\<forall>j<k. length (header title difficulty @ desc @ footer
                              @ concat (replicate j filler)) < 500))
   \<and> 500 \<le> length (transform_description desc title difficulty)
   \<and> (500 \<le> length desc \<longrightarrow> transform_description desc title difficulty = desc)"
proof -
  have "500 \<le> length (pad_description desc title difficulty)"
    by (simp add: pad_description_def pad_loop_floor)
  moreover from this have "500 \<le> length (transform_description desc title difficulty)"
    by (simp add: transform_description_def)
  moreover have "\<exists>k. pad_description desc title difficulty =
            header title difficulty @ desc @ footer @ concat (replicate k filler)
          \<and> (\<forall>j<k. length (header title difficulty @ desc @ footer
                              @ concat (replicate j filler)) < 500)"
    using pad_loop_fillers[of "header title difficulty @ desc @ footer"]
    by (simp add: pad_description_def)
  moreover have "500 \<le> length desc \<longrightarrow> transform_description desc title difficulty = desc"
    by (simp add: transform_description_def)
  ultimately show ?thesis by blast
qed

text \<open>A description of exactly 500 characters is kept; a short one is raised to the floor.\<close>

theorem pad_description_floor_witness:
  "500 \<le> length (replicate 500 (CHR ''a''))
   \<and> transform_description (replicate 500 (CHR ''a'')) ''Two Sum'' ''easy''
       = replicate 500 (CHR ''a'')
   \<and> 500 \<le> length (transform_description ''Find X'' ''Two Sum'' ''easy'')"
  using pad_description_floor[of "replicate 500 (CHR ''a'')" "''Two Sum''" "''easy''"]
    pad_description_floor[of "''Find X''" "''Two Sum''" "''easy''"]
  by simp

subsection \<open>Category inference\<close>

lemma keys_meet: "(insert k ks \<inter> S \<noteq> {}) = (k \<in> S \<or> ks \<inter> S \<noteq> {})"
  by auto

lemma map_category_first_match:
  "map_category tags = first_match leetcode_rules (lower ` set tags)"
  by (simp add: map_category_def leetcode_rules_def keys_meet Let_def)

lemma get_category_first_match:
  "get_category_from_tags tags = first_match codeforces_rules (lower ` set tags)"
  by (simp add: get_category_from_tags_def codeforces_rules_def keys_meet Let_def)

text \<open>
  C3, as the two scripts implement it: each script evaluates its own ordered rule list
  against the set of lower-cased tags, by exact comparison of whole tags, and the first
  rule with a key in that set wins, \<open>Algorithm\<close> being the default. The LeetCode script
  has the rules \<open>leetcode_rules\<close>, the Codeforces script the rules \<open>codeforces_rules\<close>. In
  both, a tag set that contains \<open>dp\<close> (in any letter case) gives Dynamic Programming,
  whatever else it contains; so tags with both \<open>dp\<close> and \<open>graph\<close> do.
\<close>

theorem category_first_match:
  "map_category tags = first_match leetcode_rules (lower ` set tags)
   \<and> get_category_from_tags tags = first_match codeforces_rules (lower ` set tags)
   \<and> (''dp'' \<in> lower ` set tags \<longrightarrow>
         map_category tags = ''Dynamic Programming''
         \<and> get_category_from_tags tags = ''Dynamic Programming'')"
proof -
  have "''dp'' \<in> lower ` set tags \<longrightarrow>
         first_match leetcode_rules (lower ` set tags) = ''Dynamic Programming''
         \<and> first_match codeforces_rules (lower ` set tags) = ''Dynamic Programming''"
    by (auto simp: leetcode_rules_def codeforces_rules_def)
  then show ?thesis
    by (simp add: map_category_first_match get_category_first_match)
qed

theorem category_first_match_witness:
  "''dp'' \<in> lower ` set [''DP'', ''Graph'']
   \<and> map_category [''DP'', ''Graph''] = ''Dynamic Programming''
   \<and> get_category_from_tags [''DP'', ''Graph''] = ''Dynamic Programming''"
proof -
  have dp: "''dp'' \<in> lower ` set [''DP'', ''Graph'']"
    by code_simp
  with category_first_match[of "[''DP'', ''Graph'']"] show ?thesis
    by blast
qed

text \<open>
  The merged rule list of the claim is not the rule list of either script: the tag \<open>tree\<close>
  is no key of the Codeforces script, the tag \<open>dsu\<close> none of the LeetCode script, and
  \<open>trees\<close>, absent from the claim's list, is a Graph Theory key of the Codeforces script.
\<close>

theorem category_first_match_counterexample:
  "get_category_from_tags [''tree''] = ''Algorithm''
   \<and> map_category [''dsu''] = ''Algorithm''
   \<and> get_category_from_tags [''trees''] = ''Graph Theory''"
  by code_simp

subsection \<open>Validation\<close>

lemma required_loop_api_empty:
  "(required_loop_api pd fs errors = []) =
     (errors = [] \<and> list_all (\<lambda>field. pd field \<noteq> None \<and> pd field \<noteq> Some []) fs)"
  by (induction pd fs errors rule: required_loop_api.induct) auto

lemma required_loop_leetcode_empty:
  "(required_loop_leetcode pd fs errors = []) =
     (errors = [] \<and> list_all (\<lambda>field. pd field \<noteq> None \<and> pd field \<noteq> Some []) fs)"
  by (induction pd fs errors rule: required_loop_leetcode.induct) auto

text \<open>
  The validator of \<^verbatim>\<open>seed_problems_api.py\<close> accepts a record exactly when the four rules
  hold; it never stops at the first violation, every check appends to the same list.
\<close>

lemma validate_api_valid_iff:
  "fst (validate_api pd) =
     (fields_present pd \<and> difficulty_ok pd \<and> description_ok pd \<and> title_ok pd)"
  unfolding validate_api_def fields_present_def difficulty_ok_def description_ok_def
    title_ok_def Let_def
  by (auto simp: required_loop_api_empty split: option.splits)

text \<open>The validator of \<^verbatim>\<open>seed_leetcode.py\<close> has no rule for the title length.\<close>

lemma validate_leetcode_valid_iff:
  "fst (validate_leetcode pd) = (fields_present pd \<and> difficulty_ok pd \<and> description_ok pd)"
  unfolding validate_leetcode_def fields_present_def difficulty_ok_def description_ok_def
    Let_def
  by (auto simp: required_loop_leetcode_empty split: option.splits)

text \<open>
  C2 at a record whose only defect is a title of 201 characters: the validator of
  \<^verbatim>\<open>seed_problems_api.py\<close> rejects it with the title message, the validator of
  \<^verbatim>\<open>seed_leetcode.py\<close> accepts it without any message, although the title rule is
  violated.
\<close>

theorem validate_title_rule_divergence:
  "\<not> title_ok long_title_problem
   \<and> validate_api long_title_problem = (False, [''Title too long: 201 chars (maximum 200)''])
   \<and> validate_leetcode long_title_problem = (True, [])"
proof -
  have n: "str_nat 201 = ''201''"
    by code_simp
  have "\<not> title_ok long_title_problem"
    by (simp add: title_ok_def long_title_problem_def)
  moreover have "validate_api long_title_problem =
      (False, [''Title too long: 201 chars (maximum 200)''])"
    by (simp add: validate_api_def long_title_problem_def n)
  moreover have "validate_leetcode long_title_problem = (True, [])"
    by (simp add: validate_leetcode_def long_title_problem_def)
  ultimately show ?thesis by blast
qed

subsection \<open>The retrying fetcher\<close>

text \<open>
  While the outcomes are transient (429, a status from 500 on, a timeout or a connection
  error) each attempt is followed by a sleep of \<open>2 ^ attempt * delay_seconds\<close>, and when
  the attempts are used up the error \<open>Failed\<close> is raised.
\<close>

lemma retry_loop_transient:
  "\<forall>k \<in> set attempts. transient (server k) \<Longrightarrow>
   \<exists>e. retry_loop d n server attempts exc trace =
         (Inl (Failed n e), trace @ backoff d attempts)"
proof (induction attempts arbitrary: exc trace)
  case Nil
  show ?case by (simp add: backoff_def)
next
  case (Cons a attempts)
  then have rest: "\<forall>k \<in> set attempts. transient (server k)" and a: "transient (server a)"
    by simp_all
  have step: "\<exists>e. retry_loop d n server attempts e' (trace @ [Get, Sleep (2 ^ a * d)]) =
         (Inl (Failed n e), trace @ backoff d (a # attempts))" for e'
    using Cons.IH[OF rest, of e' "trace @ [Get, Sleep (2 ^ a * d)]"]
    by (simp add: backoff_def)
  from a show ?case
    by (cases "server a") (auto simp: step)
qed

text \<open>The cause is not recorded for a 429: the exception kept so far is passed on.\<close>

lemma retry_loop_429:
  "\<forall>k \<in> set attempts. server k = Response 429 \<Longrightarrow>
   retry_loop d n server attempts exc trace =
     (Inl (Failed n exc), trace @ backoff d attempts)"
  by (induction attempts arbitrary: trace) (simp_all add: backoff_def)

lemma retry_request_429:
  "\<forall>k < n. server k = Response 429 \<Longrightarrow>
   retry_request d n server = (Inl (Failed n None), backoff d [0 ..< n])"
  by (simp add: retry_request_def retry_loop_429)

text \<open>A 404 at the first attempt fails at once: one request, no sleep.\<close>

lemma retry_request_404:
  "0 < n \<Longrightarrow> server 0 = Response 404 \<Longrightarrow> retry_request d n server = (Inl NotFound, [Get])"
  by (simp add: retry_request_def upt_conv_Cons)

text \<open>At most \<open>max_retries\<close> requests are issued.\<close>

lemma retry_loop_gets:
  "length (filter (\<lambda>e. e = Get) (snd (retry_loop d n server attempts exc trace)))
     \<le> length (filter (\<lambda>e. e = Get) trace) + length attempts"
proof (induction attempts arbitrary: exc trace)
  case Nil
  show ?case by simp
next
  case (Cons a attempts)
  have step: "length (filter (\<lambda>e. e = Get) (snd (retry_loop d n server attempts e t)))
        \<le> Suc (length (filter (\<lambda>e. e = Get) trace) + length attempts)"
    if "length (filter (\<lambda>e. e = Get) t) = Suc (length (filter (\<lambda>e. e = Get) trace))"
    for e t
    using Cons.IH[of e t] that by simp
  show ?case
    by (cases "server a") (auto intro!: step)
qed

lemma retry_request_gets:
  "length (filter (\<lambda>e. e = Get) (snd (retry_request d n server))) \<le> n"
  using retry_loop_gets[of d n server "[0 ..< n]" None "[]"]
  by (simp add: retry_request_def)

text \<open>A 429 followed by a 200 succeeds after one sleep of \<open>delay_seconds\<close>.\<close>

lemma retry_request_429_then_200:
  "retry_request d 3 (\<lambda>k. if k = 0 then Response 429 else Response 200) =
     (Inr 200, [Get, Sleep d, Get])"
  by (simp add: retry_request_def upt_conv_Cons)

text \<open>
  C6 at a server that answers 429 to each of the three attempts, with a delay of 2
  seconds: the sleeps are 2, 4 and 8 seconds and three requests are issued, as claimed,
  but the error raised at the end carries no cause (\<open>None\<close>), since the 429 branch never
  sets \<^verbatim>\<open>last_exception\<close>. After a timeout followed by two 429 answers, the error carries
  the timeout of the first attempt, not the cause of the last failure.
\<close>

theorem retry_request_exhausted_cause:
  "retry_request 2 3 (\<lambda>attempt. Response 429) =
     (Inl (Failed 3 None), [Get, Sleep 2, Get, Sleep 4, Get, Sleep 8])
   \<and> retry_request 2 3 (\<lambda>attempt. if attempt = 0 then Timeout else Response 429) =
     (Inl (Failed 3 (Some TimeoutExc)), [Get, Sleep 2, Get, Sleep 4, Get, Sleep 8])"
  by (simp add: retry_request_def upt_conv_Cons)

subsection \<open>The rate limit\<close>

text \<open>After the rate limit the stamp is the current time, which is when the request goes out.\<close>

lemma rate_limit_stamp:
  "last_request_time (rate_limit d ov self) = now (rate_limit d ov self)"
  by (simp add: rate_limit_def Let_def)

text \<open>
  C7, as the code implements it: the gap is enforced between the moments at which
  consecutive requests are issued. If the first call's request lasts \<open>duration\<close> seconds,
  the caller then spends \<open>t\<close> seconds, and no sleep ends early, the second request is
  issued at least \<open>delay_seconds\<close> after the first one was issued; measured from the
  completion of the first call, the guaranteed gap is \<open>delay_seconds - duration\<close> only.
\<close>

theorem rate_limit_gap:
  assumes "0 \<le> duration" and "0 \<le> t" and "0 \<le> overrun"
  shows "delay_seconds \<le>
           fst (fetch_problem delay_seconds overrun duration'
                  (idle t (snd (fetch_problem delay_seconds overrun' duration self))))
           - fst (fetch_problem delay_seconds overrun' duration self)
     \<and> delay_seconds - duration \<le>
           fst (fetch_problem delay_seconds overrun duration'
                  (idle t (snd (fetch_problem delay_seconds overrun' duration self))))
           - now (snd (fetch_problem delay_seconds overrun' duration self))"
  using assms
  by (simp add: fetch_problem_def rate_limit_def idle_def Let_def)

theorem rate_limit_gap_witness:
  "(2::real) \<le> fst prompt_second_call - fst slow_first_call
   \<and> (2::real) - 5 \<le> fst prompt_second_call - now (snd slow_first_call)"
proof -
  have "(0::real) \<le> 5" and "(0::real) \<le> 0"
    by simp_all
  from rate_limit_gap[OF this(1) this(2) this(2), of 2 1 0 "\<lparr>now = 100, last_request_time = 0\<rparr>"]
  show ?thesis
    by (simp add: prompt_second_call_def slow_first_call_def)
qed

text \<open>
  Measured from the end of the previous call the claim fails: the first request lasts 5
  seconds, longer than the delay of 2 seconds, and the second request is issued the
  moment the first call has returned.
\<close>

theorem rate_limit_gap_counterexample:
  "fst prompt_second_call - now (snd slow_first_call) = 0
   \<and> \<not> (2::real) \<le> fst prompt_second_call - now (snd slow_first_call)"
  by (simp add: prompt_second_call_def slow_first_call_def fetch_problem_def rate_limit_def
      idle_def Let_def)

subsection \<open>The persistence gateway\<close>













subsection \<open>LeetCode rich-text segmentation\<close>

text \<open>
  The lazy group is the shortest one: the text splits into the group and the rest, the
  rest is empty or starts where the lookahead holds, and the lookahead holds nowhere
  inside the group.
\<close>

lemma lazy_until_spec:
  "lazy_until stop t = (b, r) \<Longrightarrow>
   t = b @ r \<and> (r = [] \<or> stop r) \<and> (\<forall>k<length b. \<not> stop (drop k t))"
proof (induction t arbitrary: b r)
  case Nil
  then show ?case by simp
next
  case (Cons c cs)
  show ?case
  proof (cases "stop (c # cs)")
    case True
    with Cons.prems show ?thesis by simp
  next
    case False
    obtain b' r' where rec: "lazy_until stop cs = (b', r')"
      by (cases "lazy_until stop cs") auto
    with False Cons.prems have b: "b = c # b'" and r: "r = r'"
      by simp_all
    from Cons.IH[OF rec] have ih: "cs = b' @ r'" "r' = [] \<or> stop r'"
      "\<forall>k<length b'. \<not> stop (drop k cs)"
      by blast+
    have "\<not> stop (drop k (c # cs))" if "k < length b" for k
    proof (cases k)
      case 0
      with False show ?thesis by simp
    next
      case (Suc j)
      with that b ih(3) show ?thesis by simp
    qed
    with ih b r show ?thesis by simp
  qed
qed

text \<open>A search finds the leftmost match; without a result there is no match anywhere.\<close>

lemma search_None:
  "search anchor t = None \<Longrightarrow> k < length t \<Longrightarrow> anchor (drop k t) = None"
proof (induction t arbitrary: k)
  case Nil
  then show ?case by simp
next
  case (Cons c cs)
  from Cons.prems(1) have here: "anchor (c # cs) = None" and later: "search anchor cs = None"
    by (auto split: option.splits)
  show ?case
  proof (cases k)
    case 0
    with here show ?thesis by simp
  next
    case (Suc j)
    with Cons.prems(2) Cons.IH[OF later, of j] show ?thesis by simp
  qed
qed

lemma search_Some:
  "search anchor t = Some after \<Longrightarrow>
   \<exists>k<length t. anchor (drop k t) = Some after \<and> (\<forall>j<k. anchor (drop j t) = None)"
proof (induction t)
  case Nil
  then show ?case by simp
next
  case (Cons c cs)
  show ?case
  proof (cases "anchor (c # cs)")
    case (Some r)
    with Cons.prems have "anchor (drop 0 (c # cs)) = Some after" by simp
    then show ?thesis by (intro exI[of _ 0]) simp
  next
    case None
    with Cons.prems have "search anchor cs = Some after" by simp
    from Cons.IH[OF this] obtain k where k: "k < length cs" "anchor (drop k cs) = Some after"
      "\<forall>j<k. anchor (drop j cs) = None"
      by blast
    have "anchor (drop j (c # cs)) = None" if "j < Suc k" for j
      using that None k(3) by (cases j) simp_all
    with k show ?thesis by (intro exI[of _ "Suc k"]) simp
  qed
qed

lemma is_space_nl: "is_space nl"
  by (simp add: is_space_def nl_def)

lemma strip_snoc_space: "is_space c \<Longrightarrow> strip (xs @ [c]) = strip xs"
proof (cases "\<forall>x \<in> set xs. is_space x")
  case True
  assume c: "is_space c"
  from True c have blank: "dropWhile is_space xs = []" "dropWhile is_space (xs @ [c]) = []"
    by (simp_all add: dropWhile_eq_Nil_conv)
  show ?thesis unfolding strip_def lstrip_def rstrip_def blank by simp
next
  case False
  assume c: "is_space c"
  from False have "dropWhile is_space (xs @ [c]) = dropWhile is_space xs @ [c]"
    by (auto simp: dropWhile_append)
  with c show ?thesis by (simp add: strip_def lstrip_def rstrip_def)
qed

lemma no_anchor_description:
  assumes "search example_anchor t = None" and "search constraints_anchor t = None"
  shows "strip (fst (lazy_until description_stop t)) = strip t"
proof -
  obtain b r where br: "lazy_until description_stop t = (b, r)"
    by (cases "lazy_until description_stop t") auto
  from lazy_until_spec[OF br] have t: "t = b @ r" and stop: "r = [] \<or> description_stop r"
    by simp_all
  have "r = [] \<or> r = [nl]"
  proof (cases "r = []")
    case True
    then show ?thesis by simp
  next
    case False
    with t have k: "length b < length t" and r: "r = drop (length b) t"
      by simp_all
    from search_None[OF assms(1) k] search_None[OF assms(2) k] r
    have "example_anchor r = None" "constraints_anchor r = None" by simp_all
    with stop False show ?thesis by (simp add: description_stop_def at_end_def)
  qed
  then show ?thesis
    using t br is_space_nl by (auto simp: strip_snoc_space)
qed

lemma example_blocks_None: "search example_anchor t = None \<Longrightarrow> example_blocks t = []"
  by (subst example_blocks.simps) simp

lemma no_anchor_segment:
  assumes "search example_anchor t = None" and "search constraints_anchor t = None"
  shows "segment t = \<lparr>description = strip t, examples = [], constraints = []\<rparr>"
  using assms
  by (simp add: segment_def no_anchor_description parse_examples_def example_blocks_None
      parse_constraints_def)

lemma example_blocks_Some:
  assumes "search example_anchor t = Some after"
  shows "\<exists>body rest. after = body @ rest
           \<and> example_blocks t = body # example_blocks rest
           \<and> (rest = [] \<or> example_stop rest)
           \<and> (\<forall>k<length body. \<not> example_stop (drop k after))"
proof -
  obtain b r where br: "lazy_until example_stop after = (b, r)"
    by (cases "lazy_until example_stop after") auto
  have "example_blocks t = b # example_blocks r"
    using assms br by (subst example_blocks.simps) simp
  with lazy_until_spec[OF br] show ?thesis by blast
qed

lemma description_prefix:
  "\<exists>body rest. t = body @ rest
      \<and> description (segment t) = strip body
      \<and> (rest = [] \<or> description_stop rest)
      \<and> (\<forall>k<length body. \<not> description_stop (drop k t))"
proof -
  obtain b r where br: "lazy_until description_stop t = (b, r)"
    by (cases "lazy_until description_stop t") auto
  have "description (segment t) = strip b"
    using br by (simp add: segment_def)
  with lazy_until_spec[OF br] show ?thesis by blast
qed

text \<open>A stripped text has no blank at either end, so stripping it again changes nothing.\<close>

lemma strip_ends: "strip s = [] \<or> (\<not> is_space (hd (strip s)) \<and> \<not> is_space (last (strip s)))"
proof -
  define u where "u = dropWhile is_space s"
  define w where "w = dropWhile is_space (rev u)"
  have strip: "strip s = rev w"
    by (simp add: strip_def lstrip_def rstrip_def u_def w_def)
  show ?thesis
  proof (cases "w = []")
    case True
    with strip show ?thesis by simp
  next
    case False
    have "rev u = takeWhile is_space (rev u) @ w"
      by (simp add: w_def)
    with False have lw: "last w = last (rev u)"
      by (metis last_appendR)
    from False have "rev u \<noteq> []"
      unfolding w_def by auto
    then have une: "u \<noteq> []"
      by simp
    have "\<not> is_space (hd u)"
      using une unfolding u_def by (rule hd_dropWhile)
    moreover have "\<not> is_space (hd w)"
      using False unfolding w_def by (rule hd_dropWhile)
    moreover have "last (rev u) = hd u"
      using une by (simp add: last_rev)
    ultimately show ?thesis
      using False lw strip by (simp add: hd_rev last_rev)
  qed
qed

lemma strip_idem: "strip (strip s) = strip s"
proof -
  define t where "t = strip s"
  from strip_ends[of s] have ends: "t = [] \<or> (\<not> is_space (hd t) \<and> \<not> is_space (last t))"
    by (simp add: t_def)
  then have front: "dropWhile is_space t = t"
    by (cases t) auto
  from ends have "rev t = [] \<or> \<not> is_space (hd (rev t))"
    by (auto simp: hd_rev)
  then have rear: "dropWhile is_space (rev t) = rev t"
    by (cases "rev t") auto
  have "strip t = t"
    by (simp add: strip_def lstrip_def rstrip_def front rear)
  then show ?thesis
    by (simp add: t_def)
qed

text \<open>The lazy group, as a split of the text.\<close>

lemma lazy_group:
  "\<exists>g r. after = g @ r \<and> fst (lazy_until stop after) = g
         \<and> (r = [] \<or> stop r) \<and> (\<forall>k<length g. \<not> stop (drop k after))"
proof -
  obtain g r where gr: "lazy_until stop after = (g, r)"
    by (cases "lazy_until stop after") auto
  from lazy_until_spec[OF gr] have "after = g @ r" "r = [] \<or> stop r"
    "\<forall>k<length g. \<not> stop (drop k after)"
    by blast+
  moreover have "fst (lazy_until stop after) = g"
    using gr by simp
  ultimately show ?thesis by blast
qed

text \<open>
  The dict of an example: each key is there exactly when its label is found, and its
  value is the stripped lazy group after the leftmost label.
\<close>

lemma parse_example_keys:
  "map fst (parse_example b) =
     filter (\<lambda>key. map_of (parse_example b) key \<noteq> None) [''input'', ''output'', ''explanation'']"
  by (simp add: parse_example_def Let_def split: option.splits)

lemma parse_example_field:
  assumes "(key, label, stop) \<in> set sub_field_rules"
  shows "map_of (parse_example b) key =
           map_option (\<lambda>after. strip (fst (lazy_until stop after)))
             (search (literal_anchor label) (strip b))"
  using assms
  by (auto simp: sub_field_rules_def parse_example_def Let_def split: option.splits)

lemma parse_example_sub_field:
  assumes "(key, label, stop) \<in> set sub_field_rules"
  shows "(search (literal_anchor label) (strip b) = None \<longrightarrow>
            map_of (parse_example b) key = None)
     \<and> (\<forall>after. search (literal_anchor label) (strip b) = Some after \<longrightarrow>
            (\<exists>g r. after = g @ r
               \<and> map_of (parse_example b) key = Some (strip g)
               \<and> (r = [] \<or> stop r)
               \<and> (\<forall>k<length g. \<not> stop (drop k after))))"
proof (intro conjI allI impI)
  assume "search (literal_anchor label) (strip b) = None"
  then show "map_of (parse_example b) key = None"
    by (simp add: parse_example_field[OF assms])
next
  fix after
  assume found: "search (literal_anchor label) (strip b) = Some after"
  from lazy_group[of after stop] obtain g r where
    "after = g @ r" "fst (lazy_until stop after) = g" "r = [] \<or> stop r"
    "\<forall>k<length g. \<not> stop (drop k after)"
    by blast
  with found show "\<exists>g r. after = g @ r
               \<and> map_of (parse_example b) key = Some (strip g)
               \<and> (r = [] \<or> stop r)
               \<and> (\<forall>k<length g. \<not> stop (drop k after))"
    by - (rule exI[of _ g], rule exI[of _ r], simp add: parse_example_field[OF assms])
qed

text \<open>
  The constraints: the non-blank lines of the stripped lazy group after the leftmost
  anchor, each stripped, freed of its leading markers and stripped again.
\<close>

lemma parse_constraints_lines:
  "parse_constraints t =
     (case search constraints_anchor t of
        None \<Rightarrow> []
      | Some after \<Rightarrow>
          map (\<lambda>line. strip (dropWhile (\<lambda>c. c \<in> set bullet_markers) (strip line)))
            (filter (\<lambda>line. strip line \<noteq> [])
               (split_nl (strip (fst (lazy_until constraints_stop after))))))"
  by (simp add: parse_constraints_def Let_def filter_map comp_def strip_idem
      split: option.splits)

lemma parse_constraints_block:
  "(search constraints_anchor t = None \<longrightarrow> constraints (segment t) = [])
   \<and> (\<forall>after. search constraints_anchor t = Some after \<longrightarrow>
          (\<exists>g r. after = g @ r
             \<and> (r = [] \<or> constraints_stop r)
             \<and> (\<forall>k<length g. \<not> constraints_stop (drop k after))
             \<and> constraints (segment t) =
                 map (\<lambda>line. strip (dropWhile (\<lambda>c. c \<in> set bullet_markers) (strip line)))
                   (filter (\<lambda>line. strip line \<noteq> []) (split_nl (strip g)))))"
proof (intro conjI allI impI)
  assume "search constraints_anchor t = None"
  then show "constraints (segment t) = []"
    by (simp add: segment_def parse_constraints_lines)
next
  fix after
  assume found: "search constraints_anchor t = Some after"
  from lazy_group[of after constraints_stop] obtain g r where
    "after = g @ r" "fst (lazy_until constraints_stop after) = g" "r = [] \<or> constraints_stop r"
    "\<forall>k<length g. \<not> constraints_stop (drop k after)"
    by blast
  with found show "\<exists>g r. after = g @ r
             \<and> (r = [] \<or> constraints_stop r)
             \<and> (\<forall>k<length g. \<not> constraints_stop (drop k after))
             \<and> constraints (segment t) =
                 map (\<lambda>line. strip (dropWhile (\<lambda>c. c \<in> set bullet_markers) (strip line)))
                   (filter (\<lambda>line. strip line \<noteq> []) (split_nl (strip g)))"
    by - (rule exI[of _ g], rule exI[of _ r], simp add: segment_def parse_constraints_lines)
qed

text \<open>The two contents of scenario C, evaluated.\<close>

lemma scenario_c_parsed:
  "parse_html_content html_events (Some scenario_c) =
     Some \<lparr>description = ''Find X'',
           examples = [[(''input'', ''[1,2]''), (''output'', ''3'')]],
           constraints = [''1<=n<=100'']\<rparr>"
  by code_simp

lemma scenario_c_mixed_parsed:
  "parse_html_content html_events (Some scenario_c_mixed) =
     Some \<lparr>description = ''Find X'',
           examples = [[(''input'', ''[1,2]''), (''output'', ''3'')]],
           constraints = [''1<=n<=100'']\<rparr>"
  by code_simp

text \<open>
  C9, as the code implements it. On the content of scenario C the result is the
  description \<open>Find X\<close>, one example with input \<open>[1,2]\<close> and output \<open>3\<close>, and the
  constraint \<open>1<=n<=100\<close>, and the labels are recognised in any letter case; an absent or
  empty content gives the empty result, and any other content gives the segmentation of
  the text collected from it, unless the tokenizer raises. For every converted
  text \<open>t\<close> and every example block \<open>b\<close>:
  \<^item> the description is the stripped text before the first \<open>Example N:\<close> or
    \<open>Constraint(s):\<close> anchor (or the end);
  \<^item> an example block starts after the leftmost \<open>Example N:\<close> and runs until the next
    \<open>Example N:\<close>, \<open>Constraints:\<close> or the end, where the search for the next block goes
    on; the examples are the non-empty dicts of the blocks, in order;
  \<^item> in the stripped block each sub-field starts after the leftmost occurrence of its
    own label and is cut by its own lookahead only: the input at the next \<open>Output:\<close> or
    the end, the output at the next \<open>Explanation:\<close> or the end, the explanation at the
    end; a key is present exactly when its label occurs, in the order input, output,
    explanation;
  \<^item> the constraints are the non-blank lines of the stripped text between the leftmost
    \<open>Constraint(s):\<close> and the next blank line (or the end), each stripped, freed of
    its leading markers and stripped again;
  \<^item> a text without any anchor gives its stripped self as description, no examples and
    no constraints.
\<close>

theorem parse_html_content_segments:
  "parse_html_content html_events (Some scenario_c) =
     Some \<lparr>description = ''Find X'',
           examples = [[(''input'', ''[1,2]''), (''output'', ''3'')]],
           constraints = [''1<=n<=100'']\<rparr>
   \<and> parse_html_content html_events (Some scenario_c_mixed)
       = parse_html_content html_events (Some scenario_c)
   \<and> parse_html_content html_parser None
       = Some \<lparr>description = [], examples = [], constraints = []\<rparr>
   \<and> parse_html_content html_parser (Some [])
       = Some \<lparr>description = [], examples = [], constraints = []\<rparr>
   \<and> (s \<noteq> [] \<and> html_parser s = Some events \<longrightarrow>
          parse_html_content html_parser (Some s)
            = Some (segment (parser_get_text (feed events content_parser))))
   \<and> (s \<noteq> [] \<and> html_parser s = None \<longrightarrow>
          parse_html_content html_parser (Some s) = None)
   \<and> (\<exists>body rest. t = body @ rest
          \<and> description (segment t) = strip body
          \<and> (rest = [] \<or> description_stop rest)
          \<and> (\<forall>k<length body. \<not> description_stop (drop k t)))
   \<and> (search example_anchor t = None \<longrightarrow> example_blocks t = [])
   \<and> (\<forall>after. search example_anchor t = Some after \<longrightarrow>
          (\<exists>body rest. after = body @ rest
             \<and> example_blocks t = body # example_blocks rest
             \<and> (rest = [] \<or> example_stop rest)
             \<and> (\<forall>k<length body. \<not> example_stop (drop k after))))
   \<and> examples (segment t)
       = filter (\<lambda>example. example \<noteq> []) (map parse_example (example_blocks t))
   \<and> (\<forall>(key, label, stop) \<in> set sub_field_rules.
          (search (literal_anchor label) (strip b) = None \<longrightarrow>
             map_of (parse_example b) key = None)
          \<and> (\<forall>after. search (literal_anchor label) (strip b) = Some after \<longrightarrow>
                (\<exists>g r. after = g @ r
                   \<and> map_of (parse_example b) key = Some (strip g)
                   \<and> (r = [] \<or> stop r)
                   \<and> (\<forall>k<length g. \<not> stop (drop k after)))))
   \<and> map fst (parse_example b)
       = filter (\<lambda>key. map_of (parse_example b) key \<noteq> None)
           [''input'', ''output'', ''explanation'']
   \<and> (search constraints_anchor t = None \<longrightarrow> constraints (segment t) = [])
   \<and> (\<forall>after. search constraints_anchor t = Some after \<longrightarrow>
          (\<exists>g r. after = g @ r
             \<and> (r = [] \<or> constraints_stop r)
             \<and> (\<forall>k<length g. \<not> constraints_stop (drop k after))
             \<and> constraints (segment t) =
                 map (\<lambda>line. strip (dropWhile (\<lambda>c. c \<in> set bullet_markers) (strip line)))
                   (filter (\<lambda>line. strip line \<noteq> []) (split_nl (strip g)))))
   \<and> (search example_anchor t = None \<and> search constraints_anchor t = None \<longrightarrow>
          segment t = \<lparr>description = strip t, examples = [], constraints = []\<rparr>)"
proof -
  have absent: "parse_html_content html_parser None
       = Some \<lparr>description = [], examples = [], constraints = []\<rparr>"
    and empty: "parse_html_content html_parser (Some [])
       = Some \<lparr>description = [], examples = [], constraints = []\<rparr>"
    and fed: "s \<noteq> [] \<and> html_parser s = Some events \<longrightarrow>
          parse_html_content html_parser (Some s)
            = Some (segment (parser_get_text (feed events content_parser)))"
    and raised: "s \<noteq> [] \<and> html_parser s = None \<longrightarrow>
          parse_html_content html_parser (Some s) = None"
    by (simp_all add: parse_html_content_def)
  have mixed: "parse_html_content html_events (Some scenario_c_mixed)
       = parse_html_content html_events (Some scenario_c)"
    by (simp only: scenario_c_parsed scenario_c_mixed_parsed)
  have no_block: "search example_anchor t = None \<longrightarrow> example_blocks t = []"
    using example_blocks_None by blast
  have blocks: "\<forall>after. search example_anchor t = Some after \<longrightarrow>
          (\<exists>body rest. after = body @ rest
             \<and> example_blocks t = body # example_blocks rest
             \<and> (rest = [] \<or> example_stop rest)
             \<and> (\<forall>k<length body. \<not> example_stop (drop k after)))"
    using example_blocks_Some by blast
  have dicts: "examples (segment t)
       = filter (\<lambda>example. example \<noteq> []) (map parse_example (example_blocks t))"
    by (simp add: segment_def parse_examples_def)
  have fields: "\<forall>(key, label, stop) \<in> set sub_field_rules.
          (search (literal_anchor label) (strip b) = None \<longrightarrow>
             map_of (parse_example b) key = None)
          \<and> (\<forall>after. search (literal_anchor label) (strip b) = Some after \<longrightarrow>
                (\<exists>g r. after = g @ r
                   \<and> map_of (parse_example b) key = Some (strip g)
                   \<and> (r = [] \<or> stop r)
                   \<and> (\<forall>k<length g. \<not> stop (drop k after))))"
    using parse_example_sub_field[of _ _ _ b] by blast
  have none: "search example_anchor t = None \<and> search constraints_anchor t = None \<longrightarrow>
          segment t = \<lparr>description = strip t, examples = [], constraints = []\<rparr>"
    using no_anchor_segment by blast
  from scenario_c_parsed mixed absent empty fed raised description_prefix[of t] no_block blocks dicts
    fields parse_example_keys[of b] parse_constraints_block[of t] none
  show ?thesis by (intro conjI) blast+
qed

text \<open>A paragraph of plain text has no anchor: it is its own description.\<close>

theorem parse_html_content_segments_witness:
  "parse_html_content html_events (Some ''<p>Just text.</p>'') =
     Some \<lparr>description = ''Just text.'', examples = [], constraints = []\<rparr>"
proof -
  let ?events = "[StartTag ''p'', Data ''Just text.'', EndTag ''p'']"
  have events: "html_events ''<p>Just text.</p>'' = Some ?events"
    by code_simp
  have full_text: "parser_get_text (feed ?events content_parser) = ''Just text.''"
    by code_simp
  have no_anchor: "search example_anchor ''Just text.'' = None"
    "search constraints_anchor ''Just text.'' = None"
    by code_simp+
  have stripped: "strip ''Just text.'' = ''Just text.''"
    by code_simp
  have fed: "''<p>Just text.</p>'' \<noteq> [] \<and> html_events ''<p>Just text.</p>'' = Some ?events"
    using events by simp
  from parse_html_content_segments[of html_events "''<p>Just text.</p>''" ?events "''Just text.''"]
    fed no_anchor
  show ?thesis
    unfolding full_text stripped by simp
qed

text \<open>
  The sub-fields are not cut at the next label whatever it is: an input that is followed
  by an explanation, with no output between them, keeps the explanation in its text.
\<close>

theorem parse_html_content_segments_counterexample:
  "parse_html_content html_events (Some input_then_explanation) =
     Some \<lparr>description = [],
           examples = [[(''input'', ''1'' @ [nl] @ ''Explanation: e''), (''explanation'', ''e'')]],
           constraints = []\<rparr>"
  by code_simp

end
